theory Spec2Isabelle
  imports
    Main
    "HOL-Library.AList"
    "HOL-Library.Multiset"
    "HOL-Library.Char_ord"
    "HOL-Library.List_Lexorder"
begin

section \<open>Discovery and classification of the aces-dev reference CTL transforms\<close>

text \<open>
  A shallow embedding of \<^verbatim>\<open>opencolorio_config_aces/config/reference/discover/classify.py\<close>.
  Python \<^verbatim>\<open>str\<close> values are \<^typ>\<open>string\<close>; a \<^verbatim>\<open>dict\<close> (insertion ordered) is an
  association list whose keys are updated in place (\<^const>\<open>AList.update\<close>); a raised
  exception is the left summand of the result.  Logging has no effect on any result and is
  left out.  The path separator \<^verbatim>\<open>os.sep\<close> is the POSIX one.  A character beyond ASCII is
  the sequence of its UTF-8 bytes, on which searching, splitting, replacing and the order
  of \<^verbatim>\<open>sorted\<close> agree with Python's on code points.
\<close>

subsection \<open>The \<^verbatim>\<open>str\<close> methods used by the module\<close>

text \<open>\<^verbatim>\<open>s.startswith(p)\<close>\<close>

fun startswith :: "string \<Rightarrow> string \<Rightarrow> bool" where
  "startswith s [] = True"
| "startswith [] (p # ps) = False"
| "startswith (c # cs) (p # ps) = (c = p \<and> startswith cs ps)"

text \<open>\<^verbatim>\<open>s.endswith(p)\<close>\<close>

definition endswith :: "string \<Rightarrow> string \<Rightarrow> bool" where
  "endswith s p = startswith (rev s) (rev p)"

text \<open>\<^verbatim>\<open>sub in s\<close>\<close>

fun str_contains :: "string \<Rightarrow> string \<Rightarrow> bool" where
  "str_contains sub [] = (sub = [])"
| "str_contains sub (c # cs) = (startswith (c # cs) sub \<or> str_contains sub cs)"

text \<open>
  \<^verbatim>\<open>s.replace(old, new)\<close>: every occurrence of \<open>old\<close>, found from the left without overlap,
  becomes \<open>new\<close>.  With an empty \<open>old\<close> Python puts \<open>new\<close> before every character and at the end.
\<close>

function str_replace :: "string \<Rightarrow> string \<Rightarrow> string \<Rightarrow> string" where
  "str_replace [] old new = (if old = [] then new else [])"
| "str_replace (c # cs) old new =
     (if old = [] then new @ c # str_replace cs old new
      else if startswith (c # cs) old
        then new @ str_replace (drop (length old) (c # cs)) old new
      else c # str_replace cs old new)"
  by pat_completeness auto
termination
  by (relation "measure (\<lambda>(s, old, new). length s)") auto

text \<open>
  \<^verbatim>\<open>s.split(sep)\<close> for a non-empty separator (every call of the module passes a non-empty
  literal; Python raises \<^verbatim>\<open>ValueError\<close> on an empty one, which no call can reach).
\<close>

function str_split :: "string \<Rightarrow> string \<Rightarrow> string list" where
  "str_split [] sep = [[]]"
| "str_split (c # cs) sep =
     (if sep \<noteq> [] \<and> startswith (c # cs) sep
        then [] # str_split (drop (length sep) (c # cs)) sep
      else (case str_split cs sep of
              [] \<Rightarrow> [[c]]
            | x # xs \<Rightarrow> (c # x) # xs))"
  by pat_completeness auto
termination
  by (relation "measure (\<lambda>(s, sep). length s)") auto

text \<open>\<^verbatim>\<open>sep.join(xs)\<close>\<close>

fun str_join :: "string \<Rightarrow> string list \<Rightarrow> string" where
  "str_join sep [] = []"
| "str_join sep [x] = x"
| "str_join sep (x # y # ys) = x @ sep @ str_join sep (y # ys)"

text \<open>\<^verbatim>\<open>s.find(sub)\<close> and \<^verbatim>\<open>s.rfind(sub)\<close>; Python's \<open>-1\<close> is \<open>None\<close>.\<close>

fun str_find :: "string \<Rightarrow> string \<Rightarrow> nat option" where
  "str_find [] sub = (if sub = [] then Some 0 else None)"
| "str_find (c # cs) sub =
     (if startswith (c # cs) sub then Some 0 else map_option Suc (str_find cs sub))"

fun str_rfind :: "string \<Rightarrow> string \<Rightarrow> nat option" where
  "str_rfind [] sub = (if sub = [] then Some 0 else None)"
| "str_rfind (c # cs) sub =
     (case str_rfind cs sub of
        Some i \<Rightarrow> Some (Suc i)
      | None \<Rightarrow> if startswith (c # cs) sub then Some 0 else None)"

text \<open>\<^verbatim>\<open>s.rsplit(sep, 1)\<close>: one split, at the last occurrence of the separator.\<close>

definition str_rsplit1 :: "string \<Rightarrow> string \<Rightarrow> string list" where
  "str_rsplit1 s sep =
     (case str_rfind s sep of
        None \<Rightarrow> [s]
      | Some i \<Rightarrow> [take i s, drop (i + length sep) s])"

text \<open>
  \<^verbatim>\<open>s.strip()\<close>.  The characters for which \<^verbatim>\<open>str.isspace\<close> holds, each as its UTF-8 bytes:
  U+0009 to U+000D, U+001C to U+0020, U+0085, U+00A0, U+1680, U+2000 to U+200A, U+2028,
  U+2029, U+202F, U+205F and U+3000.
\<close>

definition whitespace :: "string list" where
  "whitespace =
     [[CHR 0x09], [CHR 0x0A], [CHR 0x0B], [CHR 0x0C], [CHR 0x0D],
      [CHR 0x1C], [CHR 0x1D], [CHR 0x1E], [CHR 0x1F], [CHR 0x20],
      [CHR 0xC2, CHR 0x85], [CHR 0xC2, CHR 0xA0],
      [CHR 0xE1, CHR 0x9A, CHR 0x80],
      [CHR 0xE2, CHR 0x80, CHR 0x80], [CHR 0xE2, CHR 0x80, CHR 0x81],
      [CHR 0xE2, CHR 0x80, CHR 0x82], [CHR 0xE2, CHR 0x80, CHR 0x83],
      [CHR 0xE2, CHR 0x80, CHR 0x84], [CHR 0xE2, CHR 0x80, CHR 0x85],
      [CHR 0xE2, CHR 0x80, CHR 0x86], [CHR 0xE2, CHR 0x80, CHR 0x87],
      [CHR 0xE2, CHR 0x80, CHR 0x88], [CHR 0xE2, CHR 0x80, CHR 0x89],
      [CHR 0xE2, CHR 0x80, CHR 0x8A],
      [CHR 0xE2, CHR 0x80, CHR 0xA8], [CHR 0xE2, CHR 0x80, CHR 0xA9],
      [CHR 0xE2, CHR 0x80, CHR 0xAF],
      [CHR 0xE2, CHR 0x81, CHR 0x9F],
      [CHR 0xE3, CHR 0x80, CHR 0x80]]"

text \<open>
  The string without the characters of \<open>chars\<close> (given by their bytes) that it begins with.
\<close>

function drop_leading :: "string list \<Rightarrow> string \<Rightarrow> string" where
  "drop_leading chars s =
     (case List.find (\<lambda>w. w \<noteq> [] \<and> startswith s w) chars of
        None \<Rightarrow> s
      | Some w \<Rightarrow> drop_leading chars (drop (length w) s))"
  by pat_completeness auto
termination
proof (relation "measure (\<lambda>(chars, s). length s)")
  show "wf (measure (\<lambda>(chars, s). length s))" by simp
next
  fix chars :: "string list" and s w :: string
  assume "List.find (\<lambda>w. w \<noteq> [] \<and> startswith s w) chars = Some w"
  then have w: "w \<noteq> []" and "startswith s w"
    by (auto simp: find_Some_iff)
  then have "s \<noteq> []" by (cases s; cases w) auto
  then show "((chars, drop (length w) s), (chars, s)) \<in> measure (\<lambda>(chars, s). length s)"
    using w by simp
qed

declare drop_leading.simps [simp del]

definition str_lstrip :: "string \<Rightarrow> string" where
  "str_lstrip s = drop_leading whitespace s"

text \<open>
  At the end the bytes of a character are met in reverse; in the UTF-8 bytes of a string no
  other character ends with the bytes of one of these.
\<close>

definition str_rstrip :: "string \<Rightarrow> string" where
  "str_rstrip s = rev (drop_leading (map rev whitespace) (rev s))"

definition str_strip :: "string \<Rightarrow> string" where
  "str_strip s = str_rstrip (str_lstrip s)"

subsection \<open>Module constants\<close>

definition URN_CTL :: string where
  "URN_CTL = ''urn:ampas:aces:transformId:v2.0''"

definition SEPARATOR_URN_CTL :: string where
  "SEPARATOR_URN_CTL = '':''"

definition SEPARATOR_ID_CTL :: string where
  "SEPARATOR_ID_CTL = ''.''"

definition os_sep :: string where
  "os_sep = ''/''"

definition TRANSFORM_TYPES_CTL :: "string list" where
  "TRANSFORM_TYPES_CTL = [''CSC'', ''Lib'', ''Look'', ''InvLook'', ''Output'', ''InvOutput'']"

definition TRANSFORM_FAMILIES_CTL :: "(string \<times> string) list" where
  "TRANSFORM_FAMILIES_CTL =
     [(''aces-core'', ''lib''),
      (''aces-input-and-colorspaces'', ''csc''),
      (''aces-look'', ''look''),
      (''aces-output'', ''output'')]"

definition VALUE_DEFAULT_UNDEFINED :: string where
  "VALUE_DEFAULT_UNDEFINED = ''undefined''"

text \<open>\<^verbatim>\<open>d.get(key, default)\<close>\<close>

definition dict_get :: "('k \<times> 'v) list \<Rightarrow> 'k \<Rightarrow> 'v \<Rightarrow> 'v" where
  "dict_get d k dflt = (case map_of d k of None \<Rightarrow> dflt | Some v \<Rightarrow> v)"

subsection \<open>Exceptions\<close>

text \<open>
  \<open>ValueError\<close>: a tuple assignment whose right-hand side has the wrong number of elements.
  \<open>IndexError\<close>: \<^verbatim>\<open>components[0]\<close> on an empty list (never reached: \<^const>\<open>str_split\<close>
  returns at least one element).
  \<open>UnreadableFile\<close>: \<^verbatim>\<open>open\<close> failed on the path.
\<close>

datatype error =
    ValueError
  | IndexError
  | MalformedIdentifier string
  | UnreadableFile string

text \<open>
  Modelled from the spec: \<^verbatim>\<open>attest\<close> is imported from \<^verbatim>\<open>opencolorio_config_aces.utilities\<close>,
  which is not part of the sources at hand.  The specification names the failure of the
  three checks of the identifier parser \<open>MalformedIdentifier\<close>; the message is the one that
  the call site passes.
\<close>

definition attest :: "bool \<Rightarrow> string \<Rightarrow> error + unit" where
  "attest condition message = (if condition then Inr () else Inl (MalformedIdentifier message))"

subsection \<open>\<^verbatim>\<open>patch_invalid_aces_transform_id\<close>\<close>

text \<open>
  Each of the three tests and each of the three replacements reads \<^verbatim>\<open>invalid_id\<close>, the
  argument as it was passed; the result of the last test that fired is returned.
\<close>

definition patch_invalid_aces_transform_id :: "string \<Rightarrow> string" where
  "patch_invalid_aces_transform_id aces_transform_id =
     (let invalid_id = aces_transform_id;
          patched1 = (if str_contains ''transformID'' invalid_id
                      then str_replace invalid_id ''transformID'' ''transformId''
                      else aces_transform_id);
          patched2 = (if str_contains ''LogCv3'' invalid_id
                      then str_replace invalid_id ''LogCv3'' ''LogC3''
                      else patched1);
          patched3 = (if str_contains ''LogCv4'' invalid_id
                      then str_replace invalid_id ''LogCv4'' ''LogC4''
                      else patched2)
      in patched3)"

subsection \<open>\<^verbatim>\<open>ACESTransformID\<close>\<close>

record ACESTransformID =
  aces_transform_id :: string
  urn :: string
  type :: string
  namespace :: string
  name :: string
  major_version :: string
  minor_version :: string
  patch_version :: string
  source :: string
  target :: string

text \<open>The fields as \<^verbatim>\<open>__init__\<close> sets them before it calls \<^verbatim>\<open>_parse\<close>.\<close>

definition ACESTransformID_fields :: "string \<Rightarrow> ACESTransformID" where
  "ACESTransformID_fields s =
     \<lparr>aces_transform_id = s,
      urn = VALUE_DEFAULT_UNDEFINED,
      type = VALUE_DEFAULT_UNDEFINED,
      namespace = VALUE_DEFAULT_UNDEFINED,
      name = VALUE_DEFAULT_UNDEFINED,
      major_version = VALUE_DEFAULT_UNDEFINED,
      minor_version = VALUE_DEFAULT_UNDEFINED,
      patch_version = VALUE_DEFAULT_UNDEFINED,
      source = VALUE_DEFAULT_UNDEFINED,
      target = VALUE_DEFAULT_UNDEFINED\<rparr>"

text \<open>The rewriting of the token \<open>ACES\<close> in the \<open>CSC\<close> branch.\<close>

definition aces_to_aces2065 :: "string \<Rightarrow> string" where
  "aces_to_aces2065 s = (if s = ''ACES'' then ''ACES2065-1'' else s)"

text \<open>
  The last block of \<^verbatim>\<open>_parse\<close>: source and target from type and name.  The test
  \<^verbatim>\<open>self._name is not None\<close> always holds, the name being a string.  The type \<open>Lib\<close> matches
  no branch and leaves both fields as they are.
\<close>

definition parse_source_target :: "ACESTransformID \<Rightarrow> error + ACESTransformID" where
  "parse_source_target self =
     (if type self = ''CSC'' then
        (case (if str_contains ''Unity'' (name self)
               then [''ACES'', ''ACES'']
               else str_split (name self) ''_to_'') of
           [src, tgt] \<Rightarrow>
             Inr (self\<lparr>source := aces_to_aces2065 src, target := aces_to_aces2065 tgt\<rparr>)
         | _ \<Rightarrow> Inl ValueError)
      else if type self \<in> set [''Look'', ''InvLook'']
        then Inr (self\<lparr>source := ''ACES2065-1'', target := ''ACES2065-1''\<rparr>)
      else if type self = ''Output''
        then Inr (self\<lparr>source := ''ACES2065-1'', target := name self\<rparr>)
      else if type self = ''InvOutput''
        then Inr (self\<lparr>source := name self, target := ''ACES2065-1''\<rparr>)
      else Inr self)"

text \<open>The three messages of the \<^verbatim>\<open>attest\<close> calls.\<close>

definition msg_urn_invalid :: "string \<Rightarrow> string \<Rightarrow> string" where
  "msg_urn_invalid s u = s @ '' URN '' @ u @ '' is invalid!''"

definition msg_id_invalid :: "string \<Rightarrow> string" where
  "msg_id_invalid s = s @ '' is an invalid '' @ [CHR 0x22] @ ''ACEStransformID'' @ [CHR 0x22] @ ''!''"

definition msg_type_invalid :: "string \<Rightarrow> string \<Rightarrow> string" where
  "msg_type_invalid s t = s @ '' type '' @ t @ '' is invalid!''"

definition ACESTransformID_parse :: "ACESTransformID \<Rightarrow> error + ACESTransformID" where
  "ACESTransformID_parse self =
     (if aces_transform_id self = VALUE_DEFAULT_UNDEFINED then Inr self
      else
        let patched = patch_invalid_aces_transform_id (aces_transform_id self) in
        case str_rsplit1 patched SEPARATOR_URN_CTL of
          [u, id_part] \<Rightarrow>
            (case str_split id_part SEPARATOR_ID_CTL of
               [] \<Rightarrow> Inl IndexError
             | t # components \<Rightarrow>
                 (case attest (u = URN_CTL) (msg_urn_invalid (aces_transform_id self) u) of
                    Inl e \<Rightarrow> Inl e
                  | Inr _ \<Rightarrow>
                 (case attest (length components = 4) (msg_id_invalid (aces_transform_id self)) of
                    Inl e \<Rightarrow> Inl e
                  | Inr _ \<Rightarrow>
                 (case components of
                    [ns, nm, major, minor] \<Rightarrow>
                      (case attest (t \<in> set TRANSFORM_TYPES_CTL)
                                   (msg_type_invalid (aces_transform_id self) t) of
                         Inl e \<Rightarrow> Inl e
                       | Inr _ \<Rightarrow>
                           parse_source_target
                             (self\<lparr>urn := u, type := t, namespace := ns, name := nm,
                                   major_version := major, minor_version := minor\<rparr>))
                  | _ \<Rightarrow> Inl ValueError))))
        | _ \<Rightarrow> Inl ValueError)"

text \<open>\<^verbatim>\<open>ACESTransformID(aces_transform_id)\<close>\<close>

definition ACESTransformID_init :: "string \<Rightarrow> error + ACESTransformID" where
  "ACESTransformID_init s = ACESTransformID_parse (ACESTransformID_fields s)"

subsection \<open>\<^verbatim>\<open>generate_amf_components\<close>\<close>

text \<open>
  One element of a \<^verbatim>\<open>"transforms"\<close> list of \<^verbatim>\<open>transforms.json\<close>.  The key
  \<^verbatim>\<open>inverseTransformId\<close> is read with \<^verbatim>\<open>.get\<close> and may be absent (or \<^verbatim>\<open>null\<close>); the
  other two keys are read with a subscript.
\<close>

record transform_entry =
  transformId :: string
  inverseTransformId :: "string option"
  previousEquivalentTransformIds :: "string list"

text \<open>
  \<^verbatim>\<open>json_data["transformsData"]\<close>, as loaded from the file: version key and the
  \<^verbatim>\<open>"transforms"\<close> list below it.
\<close>

type_synonym transforms_data = "(string \<times> transform_entry list) list"

text \<open>
  \<^verbatim>\<open>amf_components[key].extend(values)\<close> and \<^verbatim>\<open>amf_components[key].append(value)\<close> on the
  \<^verbatim>\<open>defaultdict(list)\<close>: a missing key is created with the empty list.
\<close>

definition dd_extend ::
  "(string \<times> string list) list \<Rightarrow> string \<Rightarrow> string list \<Rightarrow> (string \<times> string list) list" where
  "dd_extend d key vals = AList.update key (dict_get d key [] @ vals) d"

definition dd_append ::
  "(string \<times> string list) list \<Rightarrow> string \<Rightarrow> string \<Rightarrow> (string \<times> string list) list" where
  "dd_append d key val = dd_extend d key [val]"

text \<open>The body of the loop over \<^verbatim>\<open>all_transforms\<close>.\<close>

definition amf_step ::
  "bool \<Rightarrow> transform_entry \<Rightarrow> (string \<times> string list) list \<Rightarrow> (string \<times> string list) list" where
  "amf_step include_previous_transform_ids transform amf_components =
     (let transform_id = transformId transform;
          d1 = dd_append amf_components transform_id transform_id;
          d2 = (if include_previous_transform_ids
                then dd_extend d1 transform_id (previousEquivalentTransformIds transform)
                else d1)
      in case inverseTransformId transform of
           None \<Rightarrow> d2
         | Some inverse_transform_id \<Rightarrow>
             (let d3 = dd_append d2 inverse_transform_id inverse_transform_id;
                  d4 = dd_append d3 inverse_transform_id transform_id;
                  d5 = dd_append d4 transform_id inverse_transform_id
              in if include_previous_transform_ids
                 then dd_extend d5 inverse_transform_id (previousEquivalentTransformIds transform)
                 else d5))"

text \<open>
  The dictionary comprehension that is returned: the test \<^verbatim>\<open>if transform_ids\<close> reads the
  accumulated list, the test \<^verbatim>\<open>if transform_id\<close> drops the empty strings from the value.
\<close>

definition amf_result :: "(string \<times> string list) list \<Rightarrow> (string \<times> string list) list" where
  "amf_result amf_components =
     map (\<lambda>(key, transform_ids).
            (key, sort (remdups (filter (\<lambda>transform_id. transform_id \<noteq> []) transform_ids))))
       (filter (\<lambda>(key, transform_ids). transform_ids \<noteq> []) amf_components)"

definition generate_amf_components :: "transforms_data \<Rightarrow> bool \<Rightarrow> (string \<times> string list) list" where
  "generate_amf_components transformsData include_previous_transform_ids =
     (let all_transforms = concat (map snd transformsData)
      in amf_result (fold (amf_step include_previous_transform_ids) all_transforms []))"

text \<open>
  The relation set of an identifier in a built graph, \<^verbatim>\<open>amf_components.get(id, [])\<close>, as
  \<^verbatim>\<open>filter_amf_components\<close> reads it.
\<close>

definition amf_related :: "(string \<times> string list) list \<Rightarrow> string \<Rightarrow> string list" where
  "amf_related amf_components transform_id = dict_get amf_components transform_id []"

subsection \<open>\<^verbatim>\<open>find_ctl_transform_pairs\<close>\<close>

text \<open>\<^verbatim>\<open>os.path.basename\<close> and \<^verbatim>\<open>os.path.splitext\<close> of \<^verbatim>\<open>posixpath\<close>.\<close>

definition os_path_basename :: "string \<Rightarrow> string" where
  "os_path_basename p = (case str_rfind p ''/'' of None \<Rightarrow> p | Some i \<Rightarrow> drop (Suc i) p)"

definition os_path_splitext :: "string \<Rightarrow> string \<times> string" where
  "os_path_splitext p =
     (let filenameIndex = (case str_rfind p ''/'' of None \<Rightarrow> 0 | Some i \<Rightarrow> Suc i)
      in case str_rfind p ''.'' of
           None \<Rightarrow> (p, [])
         | Some dotIndex \<Rightarrow>
             if filenameIndex \<le> dotIndex \<and>
                list_ex (\<lambda>c. c \<noteq> CHR ''.'') (take (dotIndex - filenameIndex) (drop filenameIndex p))
             then (take dotIndex p, drop dotIndex p)
             else (p, []))"

text \<open>
  \<^verbatim>\<open>re.search(".*_to_ACES$", basename)\<close>: the dollar matches at the end of the string and
  before a newline that ends it; the search may start anywhere, so that the leading \<^verbatim>\<open>.*\<close>
  asks nothing.
\<close>

definition re_search_to_ACES :: "string \<Rightarrow> bool" where
  "re_search_to_ACES basename \<longleftrightarrow>
     endswith basename ''_to_ACES'' \<or> endswith basename (''_to_ACES'' @ [CHR 0x0A])"

text \<open>The inner dictionary, whose only keys are the two below.\<close>

record pair_slots =
  forward_transform :: "string option"
  inverse_transform :: "string option"

text \<open>The basename under which a path is filed, and \<^verbatim>\<open>is_forward\<close>.\<close>

definition pair_key :: "string \<Rightarrow> string \<times> bool" where
  "pair_key ctl_transform =
     (let basename0 = fst (os_path_splitext (os_path_basename ctl_transform));
          (basename1, is_forward1) =
             (if startswith basename0 ''Inv''
              then (str_replace basename0 ''Inv'' [], False)
              else (basename0, True));
          (basename2, is_forward2) =
             (if re_search_to_ACES basename1
              then (str_replace basename1 ''_to_ACES'' [], False)
              else (basename1, is_forward1))
      in (str_replace basename2 ''ACES_to_'' [], is_forward2))"

definition pairs_step :: "string \<Rightarrow> (string \<times> pair_slots) list \<Rightarrow> (string \<times> pair_slots) list" where
  "pairs_step ctl_transform ctl_transform_pairs =
     (let (basename, is_forward) = pair_key ctl_transform;
          slots = dict_get ctl_transform_pairs basename
                    \<lparr>forward_transform = None, inverse_transform = None\<rparr>
      in AList.update basename
           (if is_forward then slots\<lparr>forward_transform := Some ctl_transform\<rparr>
            else slots\<lparr>inverse_transform := Some ctl_transform\<rparr>)
           ctl_transform_pairs)"

definition find_ctl_transform_pairs :: "string list \<Rightarrow> (string \<times> pair_slots) list" where
  "find_ctl_transform_pairs ctl_transforms = fold pairs_step ctl_transforms []"

subsection \<open>\<^verbatim>\<open>CTLTransform\<close>\<close>

text \<open>
  What the module asks of its surroundings: \<open>env_read p\<close> is the content that
  \<^verbatim>\<open>open(p).read()\<close> returns (\<open>None\<close> when the file cannot be opened), \<open>env_abspath p\<close> is
  \<^verbatim>\<open>os.path.abspath(os.path.normpath(p))\<close>, and \<open>env_common_ancestor\<close> is the helper
  \<^verbatim>\<open>paths_common_ancestor\<close> of \<^verbatim>\<open>opencolorio_config_aces.utilities\<close>, which is not part of
  the sources at hand.
\<close>

record env =
  env_read :: "string \<Rightarrow> string option"
  env_abspath :: "string \<Rightarrow> string"
  env_common_ancestor :: "string list \<Rightarrow> string"

text \<open>
  Modelled from the spec: \<^verbatim>\<open>paths_common_ancestor\<close> is not part of the sources at hand.  The
  specification has the classifier compute the common ancestor directory of all discovered
  paths: the directory names that all the paths share from the left, joined by the
  separator.  The theorems below hold for every \<open>env_common_ancestor\<close>; this one is used
  where a concrete environment is evaluated.
\<close>

fun common_prefix :: "'a list \<Rightarrow> 'a list \<Rightarrow> 'a list" where
  "common_prefix (x # xs) (y # ys) = (if x = y then x # common_prefix xs ys else [])"
| "common_prefix xs ys = []"

definition paths_common_ancestor :: "string list \<Rightarrow> string" where
  "paths_common_ancestor paths =
     (case map (\<lambda>p. butlast (str_split p os_sep)) paths of
        [] \<Rightarrow> []
      | d # ds \<Rightarrow> str_join os_sep (fold common_prefix ds d))"

text \<open>
  The siblings of a record are records that refer back to it; the model keeps their paths,
  by which records are compared (\<^verbatim>\<open>__eq__\<close>).
\<close>

record CTLTransform =
  path :: string
  code :: string
  ctl_aces_transform_id :: ACESTransformID
  user_name :: string
  description :: string
  family :: string
  genus :: string
  siblings :: "string list"

text \<open>
  \<^verbatim>\<open>re.search("<tag>(.*)</tag>", line)\<close> on a line without newline: the match starts at the
  first opening tag and the group, being greedy, runs to the last closing tag after it.
\<close>

definition re_search_tag :: "string \<Rightarrow> string \<Rightarrow> string \<Rightarrow> string option" where
  "re_search_tag opening closing line =
     (case str_find line opening of
        None \<Rightarrow> None
      | Some i \<Rightarrow>
          (let rest = drop (i + length opening) line
           in case str_rfind rest closing of
                None \<Rightarrow> None
              | Some j \<Rightarrow> Some (take j rest)))"

text \<open>
  The two substitutions of \<^verbatim>\<open>PATTERNS_DESCRIPTION_CTL\<close>, in the order of the dictionary.  The
  first pattern has no special character.  The second,
  \<^verbatim>\<open>"Written by .*_IDT_maker\\.py v.* on .*"\<close>, matches from the first \<^verbatim>\<open>Written by\<close> to the
  end of the line when the two other literals follow in that order.
\<close>

definition re_sub_constants :: "string \<Rightarrow> string" where
  "re_sub_constants line = str_replace line ''============ CONSTANTS ============ //'' []"

definition re_sub_written_by :: "string \<Rightarrow> string" where
  "re_sub_written_by line =
     (case str_find line ''Written by '' of
        None \<Rightarrow> line
      | Some i \<Rightarrow>
          (let rest = drop (i + length ''Written by '') line
           in case str_find rest ''_IDT_maker.py v'' of
                None \<Rightarrow> line
              | Some j \<Rightarrow>
                  if str_contains '' on '' (drop (j + length ''_IDT_maker.py v'') rest)
                  then take i line
                  else line))"

text \<open>The loop of \<^verbatim>\<open>CTLTransform._parse\<close> over the stripped, non-empty lines.\<close>

fun parse_header :: "string list \<Rightarrow> CTLTransform \<Rightarrow> error + CTLTransform" where
  "parse_header [] self = Inr self"
| "parse_header (line # lines) self =
     (case re_search_tag ''<ACEStransformID>'' ''</ACEStransformID>'' line of
        Some group1 \<Rightarrow>
          (case ACESTransformID_init group1 of
             Inl e \<Rightarrow> Inl e
           | Inr parsed \<Rightarrow> parse_header lines (self\<lparr>ctl_aces_transform_id := parsed\<rparr>))
      | None \<Rightarrow>
          (case re_search_tag ''<ACESuserName>'' ''</ACESuserName>'' line of
             Some group1 \<Rightarrow> parse_header lines (self\<lparr>user_name := group1\<rparr>)
           | None \<Rightarrow>
               if startswith line ''//''
               then parse_header lines
                      (self\<lparr>description :=
                          description self
                            @ re_sub_written_by (re_sub_constants (str_strip (drop 2 line)))
                            @ [CHR 0x0A]\<rparr>)
               else Inr self))"

text \<open>\<^verbatim>\<open>CTLTransform(path, family, genus)\<close>\<close>

definition CTLTransform_init :: "env \<Rightarrow> string \<Rightarrow> string \<Rightarrow> string \<Rightarrow> error + CTLTransform" where
  "CTLTransform_init e p fam gen =
     (case ACESTransformID_init VALUE_DEFAULT_UNDEFINED of
        Inl err \<Rightarrow> Inl err
      | Inr undefined_id \<Rightarrow>
          (case env_read e (env_abspath e p) of
             None \<Rightarrow> Inl (UnreadableFile (env_abspath e p))
           | Some content \<Rightarrow>
               (case parse_header
                       (filter (\<lambda>line. line \<noteq> []) (map str_strip (str_split content [CHR 0x0A])))
                       \<lparr>path = env_abspath e p,
                        code = content,
                        ctl_aces_transform_id = undefined_id,
                        user_name = VALUE_DEFAULT_UNDEFINED,
                        description = VALUE_DEFAULT_UNDEFINED,
                        family = fam,
                        genus = gen,
                        siblings = []\<rparr> of
                  Inl err \<Rightarrow> Inl err
                | Inr self \<Rightarrow> Inr (self\<lparr>description := str_strip (description self)\<rparr>))))"

record CTLTransformPair =
  pair_forward_transform :: CTLTransform
  pair_inverse_transform :: CTLTransform

subsection \<open>\<^verbatim>\<open>classify_aces_ctl_transforms\<close> and \<^verbatim>\<open>unclassify_ctl_transforms\<close>\<close>

datatype taxonomy_entry = Single CTLTransform | Paired CTLTransformPair

type_synonym taxonomy = "(string \<times> (string \<times> (string \<times> taxonomy_entry) list) list) list"

text \<open>
  Family and genus of a directory.  The lookup table is applied to every part of the
  relative directory, the first part becomes the family, the others the genus.
\<close>

definition classify_family_genus :: "string \<Rightarrow> string \<Rightarrow> error + string \<times> string" where
  "classify_family_genus root_directory directory =
     (let sub_directory = str_replace directory (root_directory @ os_sep) []
      in case map (\<lambda>part. dict_get TRANSFORM_FAMILIES_CTL part part)
                (str_split sub_directory os_sep) of
           [] \<Rightarrow> Inl ValueError
         | fam # gen \<Rightarrow>
             Inr (fam, if gen = [] then VALUE_DEFAULT_UNDEFINED else str_join ''/'' gen))"

text \<open>
  \<^verbatim>\<open>classified_ctl_transforms[family][genus][basename] = ctl_transform\<close> on the nested
  \<^verbatim>\<open>defaultdict\<close>.
\<close>

definition taxonomy_set ::
  "taxonomy \<Rightarrow> string \<Rightarrow> string \<Rightarrow> string \<Rightarrow> taxonomy_entry \<Rightarrow> taxonomy" where
  "taxonomy_set classified fam gen basename entry =
     (let genera = dict_get classified fam [];
          transforms = dict_get genera gen []
      in AList.update fam
           (AList.update gen (AList.update basename entry transforms) genera) classified)"

text \<open>
  The two branches on \<^verbatim>\<open>len(pairs)\<close>; an inner dictionary of another size (there is none)
  matches neither and adds nothing.
\<close>

definition classify_entry ::
  "env \<Rightarrow> string \<Rightarrow> string \<Rightarrow> pair_slots \<Rightarrow> error + taxonomy_entry option" where
  "classify_entry e fam gen pairs =
     (case (forward_transform pairs, inverse_transform pairs) of
        (None, None) \<Rightarrow> Inr None
      | (Some p, None) \<Rightarrow>
          (case CTLTransform_init e p fam gen of
             Inl err \<Rightarrow> Inl err
           | Inr ctl_transform \<Rightarrow> Inr (Some (Single ctl_transform)))
      | (None, Some p) \<Rightarrow>
          (case CTLTransform_init e p fam gen of
             Inl err \<Rightarrow> Inl err
           | Inr ctl_transform \<Rightarrow> Inr (Some (Single ctl_transform)))
      | (Some fwd, Some bwd) \<Rightarrow>
          (case CTLTransform_init e fwd fam gen of
             Inl err \<Rightarrow> Inl err
           | Inr forward_ctl_transform \<Rightarrow>
               (case CTLTransform_init e bwd fam gen of
                  Inl err \<Rightarrow> Inl err
                | Inr inverse_ctl_transform \<Rightarrow>
                    Inr (Some (Paired
                      \<lparr>pair_forward_transform =
                         forward_ctl_transform
                           \<lparr>siblings := siblings forward_ctl_transform
                                          @ [path inverse_ctl_transform]\<rparr>,
                       pair_inverse_transform =
                         inverse_ctl_transform
                           \<lparr>siblings := siblings inverse_ctl_transform
                                          @ [path forward_ctl_transform]\<rparr>\<rparr>)))))"

text \<open>The loop over the items of \<^verbatim>\<open>find_ctl_transform_pairs(ctl_transforms)\<close>.\<close>

fun classify_pairs ::
  "env \<Rightarrow> string \<Rightarrow> string \<Rightarrow> (string \<times> pair_slots) list \<Rightarrow> taxonomy \<Rightarrow> error + taxonomy" where
  "classify_pairs e fam gen [] classified = Inr classified"
| "classify_pairs e fam gen ((basename, pairs) # rest) classified =
     (case classify_entry e fam gen pairs of
        Inl err \<Rightarrow> Inl err
      | Inr None \<Rightarrow> classify_pairs e fam gen rest classified
      | Inr (Some entry) \<Rightarrow>
          classify_pairs e fam gen rest (taxonomy_set classified fam gen basename entry))"

text \<open>The loop over the items of \<^verbatim>\<open>unclassified_ctl_transforms\<close>.\<close>

fun classify_directories ::
  "env \<Rightarrow> string \<Rightarrow> (string \<times> string list) list \<Rightarrow> taxonomy \<Rightarrow> error + taxonomy" where
  "classify_directories e root_directory [] classified = Inr classified"
| "classify_directories e root_directory ((directory, ctl_transforms) # rest) classified =
     (case classify_family_genus root_directory directory of
        Inl err \<Rightarrow> Inl err
      | Inr (fam, gen) \<Rightarrow>
          (case classify_pairs e fam gen (find_ctl_transform_pairs ctl_transforms) classified of
             Inl err \<Rightarrow> Inl err
           | Inr classified' \<Rightarrow> classify_directories e root_directory rest classified'))"

text \<open>
  Modelled from the spec: \<^verbatim>\<open>vivified_to_dict\<close> is imported from
  \<^verbatim>\<open>opencolorio_config_aces.utilities\<close>, which is not part of the sources at hand.  It turns
  the nested \<^verbatim>\<open>defaultdict\<close> into the nested mapping that the specification calls the
  taxonomy, with the same keys and values.
\<close>

definition vivified_to_dict :: "taxonomy \<Rightarrow> taxonomy" where
  "vivified_to_dict classified = classified"

definition classify_aces_ctl_transforms ::
  "env \<Rightarrow> (string \<times> string list) list \<Rightarrow> error + taxonomy" where
  "classify_aces_ctl_transforms e unclassified_ctl_transforms =
     (let root_directory = env_common_ancestor e (concat (map snd unclassified_ctl_transforms))
      in case classify_directories e root_directory unclassified_ctl_transforms [] of
           Inl err \<Rightarrow> Inl err
         | Inr classified \<Rightarrow> Inr (vivified_to_dict classified))"

fun entry_transforms :: "taxonomy_entry \<Rightarrow> CTLTransform list" where
  "entry_transforms (Single ctl_transform) = [ctl_transform]"
| "entry_transforms (Paired ctl_transform) =
     [pair_forward_transform ctl_transform, pair_inverse_transform ctl_transform]"

definition unclassify_ctl_transforms :: "taxonomy \<Rightarrow> CTLTransform list" where
  "unclassify_ctl_transforms classified =
     concat (map (\<lambda>(fam, genera).
       concat (map (\<lambda>(gen, ctl_transforms).
         concat (map (\<lambda>(basename, ctl_transform). entry_transforms ctl_transform)
           ctl_transforms)) genera)) classified)"

subsection \<open>\<^verbatim>\<open>filter_ctl_transforms\<close>\<close>

definition exclusion_filterer_ARRIIDT :: "CTLTransform \<Rightarrow> bool" where
  "exclusion_filterer_ARRIIDT ctl_transform =
     (if \<not> str_contains ''Alexa'' (path ctl_transform) then True
      else if str_contains ''Alexa-v3-logC'' (path ctl_transform) then True
      else False)"

definition TRANSFORM_FILTERERS_DEFAULT_CTL :: "(CTLTransform \<Rightarrow> bool) list" where
  "TRANSFORM_FILTERERS_DEFAULT_CTL = [exclusion_filterer_ARRIIDT]"

text \<open>
  Modelled from the spec: \<^verbatim>\<open>optional\<close> is imported from \<^verbatim>\<open>opencolorio_config_aces.utilities\<close>,
  which is not part of the sources at hand.  The default list is used unless the caller
  passes a list of his own.
\<close>

definition optional :: "'a option \<Rightarrow> 'a \<Rightarrow> 'a" where
  "optional v dflt = (case v of None \<Rightarrow> dflt | Some x \<Rightarrow> x)"

text \<open>
  \<^verbatim>\<open>included = True\<close>, then \<^verbatim>\<open>included *= filterer(ctl_transform)\<close> for every filterer: the
  product of the truth values as integers.
\<close>

definition included :: "(CTLTransform \<Rightarrow> bool) list \<Rightarrow> CTLTransform \<Rightarrow> int" where
  "included filterers ctl_transform =
     fold (\<lambda>filterer acc. acc * (if filterer ctl_transform then 1 else 0)) filterers 1"

text \<open>The argument is a taxonomy (a \<^verbatim>\<open>Mapping\<close>) or a list of records.\<close>

datatype ctl_transforms_arg = Classified taxonomy | Unclassified "CTLTransform list"

definition filter_ctl_transforms ::
  "ctl_transforms_arg \<Rightarrow> (CTLTransform \<Rightarrow> bool) list option \<Rightarrow> CTLTransform list" where
  "filter_ctl_transforms ctl_transforms filterers =
     (let filterers' = optional filterers TRANSFORM_FILTERERS_DEFAULT_CTL;
          ctl_transforms' = (case ctl_transforms of
                               Classified classified \<Rightarrow> unclassify_ctl_transforms classified
                             | Unclassified xs \<Rightarrow> xs)
      in filter (\<lambda>ctl_transform. included filterers' ctl_transform \<noteq> 0) ctl_transforms')"

subsection \<open>Auxiliary notions of the proofs\<close>

text \<open>
  The identifiers that one pass of the loop of \<^verbatim>\<open>generate_amf_components\<close> adds to the list
  kept under the key \<open>k\<close>.
\<close>

definition amf_edges :: "bool \<Rightarrow> transform_entry \<Rightarrow> string \<Rightarrow> string set" where
  "amf_edges inc t k =
     (if k = transformId t
      then {transformId t} \<union> (if inc then set (previousEquivalentTransformIds t) else {})
           \<union> (case inverseTransformId t of None \<Rightarrow> {} | Some i \<Rightarrow> {i})
      else {})
     \<union> (case inverseTransformId t of
          None \<Rightarrow> {}
        | Some i \<Rightarrow>
            if k = i
            then {i, transformId t} \<union> (if inc then set (previousEquivalentTransformIds t) else {})
            else {})"

text \<open>The last element of a list, if there is one.\<close>

definition last_opt :: "'a list \<Rightarrow> 'a option" where
  "last_opt xs = (if xs = [] then None else Some (last xs))"

text \<open>The paths held by an inner dictionary of \<^verbatim>\<open>find_ctl_transform_pairs\<close>.\<close>

definition slot_values :: "pair_slots \<Rightarrow> string list" where
  "slot_values s =
     (case forward_transform s of None \<Rightarrow> [] | Some p \<Rightarrow> [p])
     @ (case inverse_transform s of None \<Rightarrow> [] | Some p \<Rightarrow> [p])"

text \<open>\<^verbatim>\<open>classified[family][genus][basename]\<close>, if the three keys are there.\<close>

definition taxonomy_lookup ::
  "taxonomy \<Rightarrow> string \<Rightarrow> string \<Rightarrow> string \<Rightarrow> taxonomy_entry option" where
  "taxonomy_lookup classified fam gen basename =
     (case map_of classified fam of
        None \<Rightarrow> None
      | Some genera \<Rightarrow>
          (case map_of genera gen of
             None \<Rightarrow> None
           | Some transforms \<Rightarrow> map_of transforms basename))"

text \<open>The paths of the records of an entry, of a genus, of a family and of a taxonomy.\<close>

definition entry_paths :: "taxonomy_entry \<Rightarrow> string multiset" where
  "entry_paths entry = mset (map path (entry_transforms entry))"

definition genus_paths :: "(string \<times> taxonomy_entry) list \<Rightarrow> string multiset" where
  "genus_paths transforms = (\<Sum>r\<leftarrow>transforms. entry_paths (snd r))"

definition family_paths ::
  "(string \<times> (string \<times> taxonomy_entry) list) list \<Rightarrow> string multiset" where
  "family_paths genera = (\<Sum>q\<leftarrow>genera. genus_paths (snd q))"

definition taxonomy_paths :: "taxonomy \<Rightarrow> string multiset" where
  "taxonomy_paths classified = (\<Sum>p\<leftarrow>classified. family_paths (snd p))"

section \<open>The identifier parser\<close>

lemmas parse_defs =
  ACESTransformID_init_def ACESTransformID_parse_def ACESTransformID_fields_def
  VALUE_DEFAULT_UNDEFINED_def patch_invalid_aces_transform_id_def str_rsplit1_def
  SEPARATOR_URN_CTL_def SEPARATOR_ID_CTL_def attest_def URN_CTL_def TRANSFORM_TYPES_CTL_def
  parse_source_target_def aces_to_aces2065_def

lemma str_split_nonempty: "str_split s sep \<noteq> []"
  by (induction s sep rule: str_split.induct) (auto split: list.splits)

lemma two_elements: "length xs = 2 \<Longrightarrow> xs = [xs ! 0, xs ! 1]"
  by (cases xs; cases "tl xs") auto

text \<open>
  C10: an \<^verbatim>\<open>ACESTransformID\<close> built from the sentinel \<open>undefined\<close> does not raise and checks
  nothing: every field is the sentinel, although the string has no \<open>:\<close> at which a URN could
  end and is not the URN constant.
\<close>

theorem undefined_sentinel_is_not_parsed:
  "ACESTransformID_init ''undefined'' =
     Inr \<lparr>aces_transform_id = ''undefined'', urn = ''undefined'', type = ''undefined'',
          namespace = ''undefined'', name = ''undefined'', major_version = ''undefined'',
          minor_version = ''undefined'', patch_version = ''undefined'',
          source = ''undefined'', target = ''undefined''\<rparr>
   \<and> str_rsplit1 ''undefined'' SEPARATOR_URN_CTL = [''undefined'']
   \<and> ''undefined'' \<noteq> URN_CTL"
  by (simp add: parse_defs)

text \<open>
  C5: the rewriting is not idempotent.  On an identifier with two of the known defects the
  second replacement starts again from the argument and drops the first correction, so that
  the result still holds \<open>transformID\<close>; a second application then changes it.
\<close>

theorem patch_twice_differs:
  "patch_invalid_aces_transform_id ''urn:ampas:aces:transformID:v2.0:CSC.Arri.ACES_to_LogCv3.a1.v1''
     = ''urn:ampas:aces:transformID:v2.0:CSC.Arri.ACES_to_LogC3.a1.v1''
   \<and> patch_invalid_aces_transform_id
        (patch_invalid_aces_transform_id ''urn:ampas:aces:transformID:v2.0:CSC.Arri.ACES_to_LogCv3.a1.v1'')
     = ''urn:ampas:aces:transformId:v2.0:CSC.Arri.ACES_to_LogC3.a1.v1''"
  by (simp add: patch_invalid_aces_transform_id_def)

text \<open>
  The URN is compared after the rewriting: an identifier written with \<open>transformID\<close> is
  accepted, and the URN that is stored is the constant.
\<close>

lemma rewritten_urn_is_accepted:
  "ACESTransformID_init ''urn:ampas:aces:transformID:v2.0:CSC.Academy.ACES_to_ACEScc.a1.v1''
     = Inr \<lparr>aces_transform_id = ''urn:ampas:aces:transformID:v2.0:CSC.Academy.ACES_to_ACEScc.a1.v1'',
            urn = ''urn:ampas:aces:transformId:v2.0'', type = ''CSC'',
            namespace = ''Academy'', name = ''ACES_to_ACEScc'', major_version = ''a1'',
            minor_version = ''v1'', patch_version = ''undefined'',
            source = ''ACES2065-1'', target = ''ACEScc''\<rparr>"
  by (simp add: parse_defs)

text \<open>
  The claim C3 as it is worded fails on two strings that have no URN at all, so that their
  URN is not the constant.  The sentinel \<open>undefined\<close> is accepted without any check.  An ID
  without URN and separator is refused, but in the tuple assignment, with a \<open>ValueError\<close>
  and not with \<open>MalformedIdentifier\<close>.
\<close>

theorem identifier_without_urn:
  "\<not> isl (ACESTransformID_init ''undefined'')
   \<and> \<not> str_contains SEPARATOR_URN_CTL (patch_invalid_aces_transform_id ''undefined'')
   \<and> \<not> str_contains SEPARATOR_URN_CTL
         (patch_invalid_aces_transform_id ''CSC.Academy.ACES_to_ACEScc.a1.v1'')
   \<and> ACESTransformID_init ''CSC.Academy.ACES_to_ACEScc.a1.v1'' = Inl ValueError"
  by (simp add: parse_defs)

text \<open>
  C3, amended: for every string other than the sentinel \<open>undefined\<close> that has a \<open>:\<close>, read
  after the compatibility rewriting and split at its last \<open>:\<close>, the parser fails with
  \<open>MalformedIdentifier\<close> when the part before the \<open>:\<close> is not the URN constant, or when the part
  after it does not split at the dots into a type and four components, or when the type is
  not one of the six known ones.
\<close>

theorem malformed_identifier_rejected:
  assumes "s \<noteq> VALUE_DEFAULT_UNDEFINED"
      and "str_rsplit1 (patch_invalid_aces_transform_id s) SEPARATOR_URN_CTL = [u, id_part]"
      and "u \<noteq> URN_CTL \<or> length (str_split id_part SEPARATOR_ID_CTL) \<noteq> 5
           \<or> hd (str_split id_part SEPARATOR_ID_CTL) \<notin> set TRANSFORM_TYPES_CTL"
  shows "\<exists>message. ACESTransformID_init s = Inl (MalformedIdentifier message)"
proof (cases "str_split id_part SEPARATOR_ID_CTL")
  case Nil
  then show ?thesis using str_split_nonempty by blast
next
  case (Cons t components)
  show ?thesis
  proof (cases "u = URN_CTL")
    case False
    then show ?thesis using assms(1,2) Cons
      by (simp add: ACESTransformID_init_def ACESTransformID_parse_def
            ACESTransformID_fields_def attest_def)
  next
    case True
    note u = this
    show ?thesis
    proof (cases "length components = 4")
      case False
      then show ?thesis using assms(1,2) Cons u
        by (simp add: ACESTransformID_init_def ACESTransformID_parse_def
              ACESTransformID_fields_def attest_def)
    next
      case True
      then obtain ns nm major minor where c: "components = [ns, nm, major, minor]"
        by (auto simp: length_Suc_conv numeral_eq_Suc)
      have "t \<notin> set TRANSFORM_TYPES_CTL" using assms(3) u Cons c by simp
      then show ?thesis using assms(1,2) Cons u c
        by (simp add: ACESTransformID_init_def ACESTransformID_parse_def
              ACESTransformID_fields_def attest_def)
    qed
  qed
qed

text \<open>The identifier of the class docstring, of an older URN, is rejected.\<close>

theorem malformed_identifier_rejected_witness:
  "\<exists>message. ACESTransformID_init ''urn:ampas:aces:transformId:v1.5:ODT.Academy.DCDM.a1.0.3''
      = Inl (MalformedIdentifier message)"
  using malformed_identifier_rejected
    [of "''urn:ampas:aces:transformId:v1.5:ODT.Academy.DCDM.a1.0.3''"
        "''urn:ampas:aces:transformId:v1.5''" "''ODT.Academy.DCDM.a1.0.3''"]
  by (simp add: VALUE_DEFAULT_UNDEFINED_def patch_invalid_aces_transform_id_def str_rsplit1_def
        SEPARATOR_URN_CTL_def URN_CTL_def)

text \<open>
  A string without the separator of URN and ID fails in the tuple assignment, before any of
  the three checks.
\<close>

lemma str_rfind_None: "str_rfind s sub = None \<longleftrightarrow> \<not> str_contains sub s"
  by (induction s) (auto split: option.splits)

lemma identifier_without_separator:
  assumes "s \<noteq> VALUE_DEFAULT_UNDEFINED"
      and "\<not> str_contains SEPARATOR_URN_CTL (patch_invalid_aces_transform_id s)"
  shows "ACESTransformID_init s = Inl ValueError"
  using assms
  by (simp add: ACESTransformID_init_def ACESTransformID_parse_def ACESTransformID_fields_def
        str_rsplit1_def str_rfind_None[symmetric])

text \<open>
  The claim C4 as it is worded fails on identifiers of the grammar.  A \<open>CSC\<close> name without
  the separator \<open>_to_\<close> (and without \<open>Unity\<close>) makes the tuple assignment raise, so that no
  source and target are computed; and the token \<open>ACES\<close> is rewritten in the \<open>CSC\<close> branch only,
  so that an \<open>Output\<close> named \<open>ACES\<close> keeps the target \<open>ACES\<close>.
\<close>

theorem grammatical_identifier_without_source_target:
  "str_rsplit1 ''urn:ampas:aces:transformId:v2.0:CSC.Academy.ACEScc.a1.v1'' SEPARATOR_URN_CTL
       = [URN_CTL, ''CSC.Academy.ACEScc.a1.v1'']
   \<and> str_split ''CSC.Academy.ACEScc.a1.v1'' SEPARATOR_ID_CTL
       = [''CSC'', ''Academy'', ''ACEScc'', ''a1'', ''v1'']
   \<and> ''CSC'' \<in> set TRANSFORM_TYPES_CTL
   \<and> ACESTransformID_init ''urn:ampas:aces:transformId:v2.0:CSC.Academy.ACEScc.a1.v1''
       = Inl ValueError
   \<and> ACESTransformID_init ''urn:ampas:aces:transformId:v2.0:Output.Academy.ACES.a2.v1''
       = Inr \<lparr>aces_transform_id = ''urn:ampas:aces:transformId:v2.0:Output.Academy.ACES.a2.v1'',
              urn = ''urn:ampas:aces:transformId:v2.0'', type = ''Output'',
              namespace = ''Academy'', name = ''ACES'', major_version = ''a2'',
              minor_version = ''v1'', patch_version = ''undefined'',
              source = ''ACES2065-1'', target = ''ACES''\<rparr>"
  by (simp add: parse_defs)

text \<open>
  C4, amended: for every identifier of the grammar (not the sentinel; after the rewriting the
  URN constant, a \<open>:\<close>, one of the six types and four components) whose name, when the type is
  \<open>CSC\<close> and the name does not contain \<open>Unity\<close>, splits at \<open>_to_\<close> into exactly two parts, the
  parser succeeds and stores the type, the namespace, the name and the two version tokens.
  For \<open>CSC\<close> source and target are both \<open>ACES2065-1\<close> when the name contains \<open>Unity\<close> and else
  the two parts of the name, a part \<open>ACES\<close> being replaced by \<open>ACES2065-1\<close>; for \<open>Look\<close> and
  \<open>InvLook\<close> both are \<open>ACES2065-1\<close>; for \<open>Output\<close> the source is \<open>ACES2065-1\<close> and the target
  the name as it is; for \<open>InvOutput\<close> the source is the name as it is and the target
  \<open>ACES2065-1\<close>; for \<open>Lib\<close> both stay undefined.
\<close>

theorem parse_source_target_rules:
  assumes "s \<noteq> VALUE_DEFAULT_UNDEFINED"
      and "str_rsplit1 (patch_invalid_aces_transform_id s) SEPARATOR_URN_CTL = [URN_CTL, id_part]"
      and "str_split id_part SEPARATOR_ID_CTL = [t, ns, nm, major, minor]"
      and "t \<in> set TRANSFORM_TYPES_CTL"
      and "t = ''CSC'' \<and> \<not> str_contains ''Unity'' nm \<longrightarrow> length (str_split nm ''_to_'') = 2"
  shows "ACESTransformID_init s =
           Inr \<lparr>aces_transform_id = s, urn = URN_CTL, type = t, namespace = ns, name = nm,
                major_version = major, minor_version = minor,
                patch_version = VALUE_DEFAULT_UNDEFINED,
                source =
                  (if t = ''CSC'' then
                     (if str_contains ''Unity'' nm then ''ACES2065-1''
                      else aces_to_aces2065 (str_split nm ''_to_'' ! 0))
                   else if t = ''Look'' \<or> t = ''InvLook'' then ''ACES2065-1''
                   else if t = ''Output'' then ''ACES2065-1''
                   else if t = ''InvOutput'' then nm
                   else VALUE_DEFAULT_UNDEFINED),
                target =
                  (if t = ''CSC'' then
                     (if str_contains ''Unity'' nm then ''ACES2065-1''
                      else aces_to_aces2065 (str_split nm ''_to_'' ! 1))
                   else if t = ''Look'' \<or> t = ''InvLook'' then ''ACES2065-1''
                   else if t = ''Output'' then nm
                   else if t = ''InvOutput'' then ''ACES2065-1''
                   else VALUE_DEFAULT_UNDEFINED)\<rparr>"
proof -
  let ?self = "\<lparr>aces_transform_id = s, urn = URN_CTL, type = t, namespace = ns, name = nm,
                major_version = major, minor_version = minor,
                patch_version = VALUE_DEFAULT_UNDEFINED,
                source = VALUE_DEFAULT_UNDEFINED, target = VALUE_DEFAULT_UNDEFINED\<rparr>"
  have step: "ACESTransformID_init s = parse_source_target ?self"
    using assms(1-4)
    by (simp add: ACESTransformID_init_def ACESTransformID_parse_def ACESTransformID_fields_def
          attest_def)
  show ?thesis
  proof (cases "t = ''CSC''")
    case True
    note csc = this
    show ?thesis
    proof (cases "str_contains ''Unity'' nm")
      case True
      then show ?thesis using csc step
        by (simp add: parse_source_target_def aces_to_aces2065_def)
    next
      case False
      then have "str_split nm ''_to_'' = [str_split nm ''_to_'' ! 0, str_split nm ''_to_'' ! 1]"
        using assms(5) csc two_elements by blast
      then obtain a b where ab: "str_split nm ''_to_'' = [a, b]" by blast
      show ?thesis using csc step False ab
        by (simp add: parse_source_target_def)
    qed
  next
    case False
    then show ?thesis using step
      by (auto simp: parse_source_target_def)
  qed
qed

text \<open>The identifier of the concrete scenario.\<close>

theorem parse_source_target_rules_witness:
  "ACESTransformID_init
     ''urn:ampas:aces:transformId:v2.0:Output.Academy.Rec709-D65_100nit_in_Rec709-D65_sRGB-Piecewise.a2.v1''
   = Inr \<lparr>aces_transform_id =
            ''urn:ampas:aces:transformId:v2.0:Output.Academy.Rec709-D65_100nit_in_Rec709-D65_sRGB-Piecewise.a2.v1'',
          urn = ''urn:ampas:aces:transformId:v2.0'', type = ''Output'', namespace = ''Academy'',
          name = ''Rec709-D65_100nit_in_Rec709-D65_sRGB-Piecewise'',
          major_version = ''a2'', minor_version = ''v1'', patch_version = ''undefined'',
          source = ''ACES2065-1'',
          target = ''Rec709-D65_100nit_in_Rec709-D65_sRGB-Piecewise''\<rparr>"
  using parse_source_target_rules
    [of "''urn:ampas:aces:transformId:v2.0:Output.Academy.Rec709-D65_100nit_in_Rec709-D65_sRGB-Piecewise.a2.v1''"
        "''Output.Academy.Rec709-D65_100nit_in_Rec709-D65_sRGB-Piecewise.a2.v1''"
        "''Output''" "''Academy''" "''Rec709-D65_100nit_in_Rec709-D65_sRGB-Piecewise''"
        "''a2''" "''v1''"]
  by (simp add: VALUE_DEFAULT_UNDEFINED_def patch_invalid_aces_transform_id_def str_rsplit1_def
        SEPARATOR_URN_CTL_def SEPARATOR_ID_CTL_def URN_CTL_def TRANSFORM_TYPES_CTL_def)

section \<open>The AMF components\<close>

lemmas amf_defs =
  generate_amf_components_def amf_result_def amf_step_def dd_append_def dd_extend_def
  dict_get_def amf_related_def Let_def

lemma dict_get_update:
  "dict_get (AList.update k v d) k' dflt = (if k' = k then v else dict_get d k' dflt)"
  by (simp add: dict_get_def update_conv')

lemma dict_get_dd_extend:
  "dict_get (dd_extend d k vs) k' [] = (if k' = k then dict_get d k [] @ vs else dict_get d k' [])"
  by (simp add: dd_extend_def dict_get_update)

lemma dict_get_dd_append:
  "dict_get (dd_append d k v) k' [] = (if k' = k then dict_get d k [] @ [v] else dict_get d k' [])"
  by (simp add: dd_append_def dict_get_dd_extend)

lemma distinct_dd_extend: "distinct (map fst d) \<Longrightarrow> distinct (map fst (dd_extend d k vs))"
  by (simp add: dd_extend_def distinct_update)

lemma distinct_dd_append: "distinct (map fst d) \<Longrightarrow> distinct (map fst (dd_append d k v))"
  by (simp add: dd_append_def distinct_dd_extend)

lemma distinct_amf_step: "distinct (map fst d) \<Longrightarrow> distinct (map fst (amf_step inc t d))"
  by (simp add: amf_step_def Let_def distinct_dd_extend distinct_dd_append split: option.splits)

lemma distinct_amf_fold:
  "distinct (map fst d) \<Longrightarrow> distinct (map fst (fold (amf_step inc) ts d))"
  by (induction ts arbitrary: d) (simp_all add: distinct_amf_step)

lemma set_amf_step:
  "set (dict_get (amf_step inc t d) k []) = set (dict_get d k []) \<union> amf_edges inc t k"
  by (cases "inverseTransformId t")
     (auto simp: amf_step_def Let_def amf_edges_def dict_get_dd_extend dict_get_dd_append)

lemma set_amf_fold:
  "set (dict_get (fold (amf_step inc) ts d) k [])
     = set (dict_get d k []) \<union> (\<Union>t \<in> set ts. amf_edges inc t k)"
  by (induction ts arbitrary: d) (auto simp: set_amf_step)

lemma map_of_amf_result:
  "distinct (map fst d) \<Longrightarrow>
   map_of (amf_result d) k =
     (case map_of d k of
        None \<Rightarrow> None
      | Some ids \<Rightarrow> if ids = [] then None
                    else Some (sort (remdups (filter (\<lambda>i. i \<noteq> []) ids))))"
proof (induction d)
  case Nil
  then show ?case by (simp add: amf_result_def)
next
  case (Cons p d)
  obtain k' ids where p: "p = (k', ids)" by (cases p)
  have IH: "map_of (amf_result d) k =
     (case map_of d k of None \<Rightarrow> None
      | Some ids \<Rightarrow> if ids = [] then None
                    else Some (sort (remdups (filter (\<lambda>i. i \<noteq> []) ids))))"
    using Cons by simp
  have fresh: "map_of d k' = None" using Cons.prems p
    by (simp add: map_of_eq_None_iff)
  have unfold: "amf_result (p # d) =
      (if ids = [] then amf_result d
       else (k', sort (remdups (filter (\<lambda>i. i \<noteq> []) ids))) # amf_result d)"
    by (simp add: amf_result_def p)
  show ?case
  proof (cases "k = k'")
    case True
    then show ?thesis using IH fresh unfold p by simp
  next
    case False
    then show ?thesis using IH unfold p by simp
  qed
qed

lemma set_amf_related_result:
  "distinct (map fst d) \<Longrightarrow>
   set (amf_related (amf_result d) k) = {v \<in> set (dict_get d k []). v \<noteq> []}"
  by (cases "map_of d k") (auto simp: amf_related_def dict_get_def map_of_amf_result)

lemma set_amf_related_generate:
  "set (amf_related (generate_amf_components data inc) k)
     = {v. v \<noteq> [] \<and> (\<exists>t \<in> set (concat (map snd data)). v \<in> amf_edges inc t k)}"
proof -
  have "distinct (map fst (fold (amf_step inc) (concat (map snd data)) []))"
    by (rule distinct_amf_fold) simp
  then have "set (amf_related (generate_amf_components data inc) k)
      = {v \<in> set (dict_get (fold (amf_step inc) (concat (map snd data)) []) k []). v \<noteq> []}"
    unfolding generate_amf_components_def Let_def by (rule set_amf_related_result)
  also have "\<dots> = {v. v \<noteq> [] \<and> (\<exists>t \<in> set (concat (map snd data)). v \<in> amf_edges inc t k)}"
    unfolding set_amf_fold by (auto simp: dict_get_def)
  finally show ?thesis .
qed

lemma amf_edges_sym:
  assumes "v \<in> amf_edges inc t k"
      and "inc \<longrightarrow> \<not> ((k = transformId t \<or> inverseTransformId t = Some k)
                     \<and> v \<in> set (previousEquivalentTransformIds t))"
  shows "k \<in> amf_edges inc t v"
  using assms by (auto simp: amf_edges_def split: option.splits if_splits)

text \<open>
  The claim C1 as it is worded fails when the previous identifiers are included: a previous
  identifier is listed under the transform, the transform is not listed under the previous
  identifier.
\<close>

theorem previous_id_not_symmetric:
  "''CSC.Old'' \<in> set (amf_related (generate_amf_components
       [(''v2.0.0'', [\<lparr>transformId = ''CSC.A'', inverseTransformId = Some ''CSC.B'',
                       previousEquivalentTransformIds = [''CSC.Old'']\<rparr>])] True) ''CSC.A'')
   \<and> ''CSC.A'' \<notin> set (amf_related (generate_amf_components
       [(''v2.0.0'', [\<lparr>transformId = ''CSC.A'', inverseTransformId = Some ''CSC.B'',
                       previousEquivalentTransformIds = [''CSC.Old'']\<rparr>])] True) ''CSC.Old'')"
  by (simp add: amf_defs)

text \<open>
  C1, amended: for every corpus and both values of the flag, and for every two non-empty
  identifiers, the second is in the relation set of the first if and only if the first is in
  the relation set of the second, unless the previous identifiers are included and one of
  the two is the transform or the inverse of an entry whose list of previous identifiers
  holds the other.
\<close>

theorem amf_components_symmetric:
  assumes "id1 \<noteq> []" and "id2 \<noteq> []"
      and "inc \<longrightarrow> (\<forall>t \<in> set (concat (map snd data)).
             \<not> ((id1 = transformId t \<or> inverseTransformId t = Some id1)
                 \<and> id2 \<in> set (previousEquivalentTransformIds t))
           \<and> \<not> ((id2 = transformId t \<or> inverseTransformId t = Some id2)
                 \<and> id1 \<in> set (previousEquivalentTransformIds t)))"
  shows "id2 \<in> set (amf_related (generate_amf_components data inc) id1)
         \<longleftrightarrow> id1 \<in> set (amf_related (generate_amf_components data inc) id2)"
proof
  assume "id2 \<in> set (amf_related (generate_amf_components data inc) id1)"
  then obtain t where t: "t \<in> set (concat (map snd data))" "id2 \<in> amf_edges inc t id1"
    unfolding set_amf_related_generate by blast
  have "inc \<longrightarrow> \<not> ((id1 = transformId t \<or> inverseTransformId t = Some id1)
                     \<and> id2 \<in> set (previousEquivalentTransformIds t))"
    using assms(3) t(1) by blast
  with t(2) have "id1 \<in> amf_edges inc t id2"
    by (rule amf_edges_sym)
  then show "id1 \<in> set (amf_related (generate_amf_components data inc) id2)"
    unfolding set_amf_related_generate using t(1) assms(1) by blast
next
  assume "id1 \<in> set (amf_related (generate_amf_components data inc) id2)"
  then obtain t where t: "t \<in> set (concat (map snd data))" "id1 \<in> amf_edges inc t id2"
    unfolding set_amf_related_generate by blast
  have "inc \<longrightarrow> \<not> ((id2 = transformId t \<or> inverseTransformId t = Some id2)
                     \<and> id1 \<in> set (previousEquivalentTransformIds t))"
    using assms(3) t(1) by blast
  with t(2) have "id2 \<in> amf_edges inc t id1"
    by (rule amf_edges_sym)
  then show "id2 \<in> set (amf_related (generate_amf_components data inc) id1)"
    unfolding set_amf_related_generate using t(1) assms(2) by blast
qed

text \<open>
  An older pair of transform and inverse stays symmetric when a newer entry lists one of
  the two as a previous identifier.
\<close>

theorem amf_components_symmetric_witness:
  "''CSC.Old.A'' \<in> set (amf_related (generate_amf_components
       [(''v1.0.0'', [\<lparr>transformId = ''CSC.Old.A'', inverseTransformId = Some ''CSC.Old.B'',
                       previousEquivalentTransformIds = []\<rparr>]),
        (''v2.0.0'', [\<lparr>transformId = ''CSC.New.A'', inverseTransformId = Some ''CSC.New.B'',
                       previousEquivalentTransformIds = [''CSC.Old.A'']\<rparr>])] True) ''CSC.Old.B'')
   \<and> ''CSC.Old.B'' \<in> set (amf_related (generate_amf_components
       [(''v1.0.0'', [\<lparr>transformId = ''CSC.Old.A'', inverseTransformId = Some ''CSC.Old.B'',
                       previousEquivalentTransformIds = []\<rparr>]),
        (''v2.0.0'', [\<lparr>transformId = ''CSC.New.A'', inverseTransformId = Some ''CSC.New.B'',
                       previousEquivalentTransformIds = [''CSC.Old.A'']\<rparr>])] True) ''CSC.Old.A'')"
proof -
  have in1: "''CSC.Old.A'' \<in> set (amf_related (generate_amf_components
       [(''v1.0.0'', [\<lparr>transformId = ''CSC.Old.A'', inverseTransformId = Some ''CSC.Old.B'',
                       previousEquivalentTransformIds = []\<rparr>]),
        (''v2.0.0'', [\<lparr>transformId = ''CSC.New.A'', inverseTransformId = Some ''CSC.New.B'',
                       previousEquivalentTransformIds = [''CSC.Old.A'']\<rparr>])] True) ''CSC.Old.B'')"
    by code_simp
  then show ?thesis
    using amf_components_symmetric
      [of "''CSC.Old.B''" "''CSC.Old.A''" True
          "[(''v1.0.0'', [\<lparr>transformId = ''CSC.Old.A'', inverseTransformId = Some ''CSC.Old.B'',
                       previousEquivalentTransformIds = []\<rparr>]),
            (''v2.0.0'', [\<lparr>transformId = ''CSC.New.A'', inverseTransformId = Some ''CSC.New.B'',
                       previousEquivalentTransformIds = [''CSC.Old.A'']\<rparr>])]"]
    by simp
qed

text \<open>
  The list of a key that is not the empty string holds the key itself, and so is not empty.
\<close>

lemma keys_dd_extend: "fst ` set (dd_extend d k vs) = insert k (fst ` set d)"
  by (simp add: dd_extend_def dom_update)

lemma keys_dd_append: "fst ` set (dd_append d k v) = insert k (fst ` set d)"
  by (simp add: dd_append_def keys_dd_extend)

lemma keys_amf_step:
  "fst ` set (amf_step inc t d) =
     fst ` set d \<union> {transformId t}
       \<union> (case inverseTransformId t of None \<Rightarrow> {} | Some i \<Rightarrow> {i})"
  by (cases "inverseTransformId t")
     (auto simp: amf_step_def Let_def keys_dd_extend keys_dd_append)

lemma key_amf_edges:
  "k = transformId t \<or> inverseTransformId t = Some k \<Longrightarrow> k \<in> amf_edges inc t k"
  by (auto simp: amf_edges_def)

lemma keys_amf_fold:
  "k \<in> fst ` set (fold (amf_step inc) ts d) \<Longrightarrow>
   k \<in> fst ` set d \<or> (\<exists>t \<in> set ts. k \<in> amf_edges inc t k)"
proof (induction ts arbitrary: d)
  case Nil
  then show ?case by simp
next
  case (Cons t ts)
  from Cons.prems have "k \<in> fst ` set (fold (amf_step inc) ts (amf_step inc t d))" by simp
  then consider (step) "k \<in> fst ` set (amf_step inc t d)"
    | (later) "\<exists>t \<in> set ts. k \<in> amf_edges inc t k"
    using Cons.IH by blast
  then show ?case
  proof cases
    case step
    then have "k \<in> fst ` set d \<or> k = transformId t \<or> inverseTransformId t = Some k"
      unfolding keys_amf_step by (cases "inverseTransformId t") auto
    then show ?thesis using key_amf_edges[of k t inc] by auto
  next
    case later
    then show ?thesis by auto
  qed
qed

lemma nonempty_key_lists_itself:
  assumes "(k, ids) \<in> set (generate_amf_components data inc)" and "k \<noteq> []"
  shows "k \<in> set ids"
proof -
  let ?d = "fold (amf_step inc) (concat (map snd data)) []"
  have dist: "distinct (map fst ?d)" by (rule distinct_amf_fold) simp
  have res: "(k, ids) \<in> set (amf_result ?d)"
    using assms(1) by (simp add: generate_amf_components_def)
  then have "k \<in> fst ` set ?d" by (force simp: amf_result_def)
  then have "\<exists>t \<in> set (concat (map snd data)). k \<in> amf_edges inc t k"
    using keys_amf_fold[of k inc "concat (map snd data)" "[]"] by simp
  then have "k \<in> set (amf_related (generate_amf_components data inc) k)"
    using assms(2) by (simp add: set_amf_related_generate)
  moreover have "distinct (map fst (amf_result ?d))"
  proof -
    have "map fst (amf_result ?d) = map fst (filter (\<lambda>(key, transform_ids). transform_ids \<noteq> []) ?d)"
      by (simp add: amf_result_def split_def comp_def)
    then show ?thesis using dist by (simp add: distinct_map_filter)
  qed
  then have "map_of (amf_result ?d) k = Some ids" using res by simp
  then have "amf_related (generate_amf_components data inc) k = ids"
    by (simp add: amf_related_def generate_amf_components_def dict_get_def)
  ultimately show ?thesis by simp
qed

text \<open>
  C9: an entry whose identifiers are all empty strings is kept with an empty list.  The
  comprehension tests the accumulated list, which holds the empty identifier, and only then
  drops the empty strings from the value.
\<close>

theorem empty_id_keeps_empty_entry:
  "generate_amf_components
     [(''v2.0.0'', [\<lparr>transformId = [], inverseTransformId = None,
                      previousEquivalentTransformIds = []\<rparr>])] False = [([], [])]"
  by (simp add: amf_defs)

section \<open>Forward and inverse pairs\<close>

lemmas pairs_defs =
  find_ctl_transform_pairs_def pairs_step_def pair_key_def os_path_basename_def
  os_path_splitext_def re_search_to_ACES_def endswith_def dict_get_def Let_def

lemma find_pairs_snoc:
  "find_ctl_transform_pairs (xs @ [x]) = pairs_step x (find_ctl_transform_pairs xs)"
  by (simp add: find_ctl_transform_pairs_def)

lemma map_of_pairs_step:
  "map_of (pairs_step x d) b =
     (if b = fst (pair_key x)
      then Some (if snd (pair_key x)
                 then (dict_get d b \<lparr>forward_transform = None, inverse_transform = None\<rparr>)
                        \<lparr>forward_transform := Some x\<rparr>
                 else (dict_get d b \<lparr>forward_transform = None, inverse_transform = None\<rparr>)
                        \<lparr>inverse_transform := Some x\<rparr>)
      else map_of d b)"
  by (cases "pair_key x") (simp add: pairs_step_def update_conv')

lemma map_of_find_pairs:
  "map_of (find_ctl_transform_pairs xs) b =
     (if b \<in> fst ` pair_key ` set xs
      then Some \<lparr>forward_transform = last_opt (filter (\<lambda>x. pair_key x = (b, True)) xs),
                 inverse_transform = last_opt (filter (\<lambda>x. pair_key x = (b, False)) xs)\<rparr>
      else None)"
proof (induction xs rule: rev_induct)
  case Nil
  then show ?case by (simp add: find_ctl_transform_pairs_def)
next
  case (snoc x xs)
  obtain b' fwd where k: "pair_key x = (b', fwd)" by (cases "pair_key x")
  show ?case
  proof (cases "b = b'")
    case False
    then show ?thesis using snoc k
      by (auto simp: find_pairs_snoc map_of_pairs_step)
  next
    case True
    have none: "b \<notin> fst ` pair_key ` set xs \<Longrightarrow>
        filter (\<lambda>x. pair_key x = (b, True)) xs = [] \<and> filter (\<lambda>x. pair_key x = (b, False)) xs = []"
      by (auto simp: filter_empty_conv image_iff)
    show ?thesis
    proof (cases "b \<in> fst ` pair_key ` set xs")
      case True
      then show ?thesis using snoc k \<open>b = b'\<close>
        by (cases fwd) (simp_all add: find_pairs_snoc map_of_pairs_step dict_get_def last_opt_def)
    next
      case False
      then show ?thesis using snoc k \<open>b = b'\<close> none[OF False]
        by (cases fwd) (simp_all add: find_pairs_snoc map_of_pairs_step dict_get_def last_opt_def)
    qed
  qed
qed

lemma distinct_pairs_step: "distinct (map fst d) \<Longrightarrow> distinct (map fst (pairs_step x d))"
  by (cases "pair_key x") (simp add: pairs_step_def Let_def distinct_update)

lemma distinct_find_pairs: "distinct (map fst (find_ctl_transform_pairs xs))"
  by (induction xs rule: rev_induct)
     (simp_all add: find_pairs_snoc distinct_pairs_step, simp add: find_ctl_transform_pairs_def)

text \<open>
  The claim C6 as it is worded fails on its own scenario: the two files are filed under the
  basename \<open>Output.Academy.Foo\<close>, the file name without extension and without \<open>Inv\<close>; there is
  no entry \<open>Foo\<close>.
\<close>

theorem output_pair_is_keyed_by_full_basename:
  "find_ctl_transform_pairs
     [''/aces/aces-output/Output.Academy.Foo.ctl'', ''/aces/aces-output/InvOutput.Academy.Foo.ctl'']
   = [(''Output.Academy.Foo'',
       \<lparr>forward_transform = Some ''/aces/aces-output/Output.Academy.Foo.ctl'',
        inverse_transform = Some ''/aces/aces-output/InvOutput.Academy.Foo.ctl''\<rparr>)]
   \<and> map_of (find_ctl_transform_pairs
        [''/aces/aces-output/Output.Academy.Foo.ctl'', ''/aces/aces-output/InvOutput.Academy.Foo.ctl''])
        ''Foo'' = None"
  by (simp add: pairs_defs)

text \<open>
  C6, amended: for every list of paths that holds a forward file and an inverse file of the
  same basename, the result has one entry for that basename with both slots filled: the
  forward slot holds the last forward path of that basename in the list and the inverse slot
  the last inverse path of that basename (the two files themselves when there is no other).
  The basename is the file name without extension, without \<open>Inv\<close>, without a final
  \<open>_to_ACES\<close> and without \<open>ACES_to_\<close>; for \<open>Output.Academy.Foo.ctl\<close> and
  \<open>InvOutput.Academy.Foo.ctl\<close> it is \<open>Output.Academy.Foo\<close>.
\<close>

theorem pairs_hold_last_forward_and_last_inverse:
  assumes "f \<in> set xs" and "pair_key f = (b, True)"
      and "i \<in> set xs" and "pair_key i = (b, False)"
  shows "map_of (find_ctl_transform_pairs xs) b =
           Some \<lparr>forward_transform = Some (last (filter (\<lambda>x. pair_key x = (b, True)) xs)),
                 inverse_transform = Some (last (filter (\<lambda>x. pair_key x = (b, False)) xs))\<rparr>
         \<and> distinct (map fst (find_ctl_transform_pairs xs))"
proof -
  have "filter (\<lambda>x. pair_key x = (b, True)) xs \<noteq> []"
    using assms(1,2) by (auto simp: filter_empty_conv)
  moreover have "filter (\<lambda>x. pair_key x = (b, False)) xs \<noteq> []"
    using assms(3,4) by (auto simp: filter_empty_conv)
  moreover have "b \<in> fst ` pair_key ` set xs"
    using assms(1,2) by (metis fst_conv image_eqI)
  ultimately show ?thesis
    by (simp add: map_of_find_pairs last_opt_def distinct_find_pairs)
qed

theorem pairs_hold_last_forward_and_last_inverse_witness:
  "map_of (find_ctl_transform_pairs
        [''/aces/aces-output/Output.Academy.Foo.ctl'', ''/aces/aces-output/InvOutput.Academy.Foo.ctl''])
        ''Output.Academy.Foo''
   = Some \<lparr>forward_transform = Some ''/aces/aces-output/Output.Academy.Foo.ctl'',
           inverse_transform = Some ''/aces/aces-output/InvOutput.Academy.Foo.ctl''\<rparr>
   \<and> distinct (map fst (find_ctl_transform_pairs
        [''/aces/aces-output/Output.Academy.Foo.ctl'', ''/aces/aces-output/InvOutput.Academy.Foo.ctl'']))"
proof -
  have kf: "pair_key ''/aces/aces-output/Output.Academy.Foo.ctl'' = (''Output.Academy.Foo'', True)"
    by (simp add: pairs_defs)
  have ki: "pair_key ''/aces/aces-output/InvOutput.Academy.Foo.ctl'' = (''Output.Academy.Foo'', False)"
    by (simp add: pairs_defs)
  show ?thesis
    using pairs_hold_last_forward_and_last_inverse
      [of "''/aces/aces-output/Output.Academy.Foo.ctl''"
          "[''/aces/aces-output/Output.Academy.Foo.ctl'', ''/aces/aces-output/InvOutput.Academy.Foo.ctl'']"
          "''Output.Academy.Foo''"
          "''/aces/aces-output/InvOutput.Academy.Foo.ctl''", OF _ kf _ ki]
    by (simp add: kf ki)
qed

section \<open>Classification\<close>

lemma startswith_append: "startswith (p @ s) p"
  by (induction p) simp_all

lemma str_replace_prefix:
  "old \<noteq> [] \<Longrightarrow> str_replace (old @ s) old new = new @ str_replace s old new"
  by (cases old) (simp_all add: startswith_append[of "_ # _", simplified])

lemma str_replace_absent:
  "old \<noteq> [] \<Longrightarrow> \<not> str_contains old s \<Longrightarrow> str_replace s old new = s"
  by (induction s) simp_all

lemma str_split_no_sep:
  "c \<notin> set x \<Longrightarrow> str_split x [c] = [x]"
  by (induction x) auto

lemma str_split_segment:
  "c \<notin> set x \<Longrightarrow> str_split (x @ c # r) [c] = x # str_split r [c]"
  by (induction x) auto

lemma str_split_join:
  "segs \<noteq> [] \<Longrightarrow> \<forall>seg \<in> set segs. c \<notin> set seg \<Longrightarrow> str_split (str_join [c] segs) [c] = segs"
  by (induction "[c]" segs rule: str_join.induct) (simp_all add: str_split_no_sep str_split_segment)

text \<open>
  The claim C8 as it is worded fails on a directory whose second part is a key of the lookup
  table: the genus is built from the substituted parts, not from the raw ones.
\<close>

theorem genus_segments_are_substituted:
  "classify_family_genus ''/aces'' ''/aces/aces-output/aces-look'' = Inr (''output'', ''look'')"
  by (simp add: classify_family_genus_def os_sep_def dict_get_def TRANSFORM_FAMILIES_CTL_def)

text \<open>
  C8, amended: for every directory below the root whose relative path (the parts \<open>first\<close> and
  \<open>rest\<close>, joined by the separator, in which the root followed by the separator does not
  occur again) is given, the family is the first part substituted through the lookup table
  (the part itself if it is no key), and the genus is the undefined sentinel when there is
  no other part and else the other parts, each substituted through the same table, joined
  by \<open>/\<close>.
\<close>

theorem family_and_genus_of_directory:
  assumes "\<forall>seg \<in> set (first # rest). CHR ''/'' \<notin> set seg"
      and "\<not> str_contains (root_directory @ os_sep) (str_join os_sep (first # rest))"
  shows "classify_family_genus root_directory
           (root_directory @ os_sep @ str_join os_sep (first # rest)) =
         Inr (dict_get TRANSFORM_FAMILIES_CTL first first,
              if rest = [] then VALUE_DEFAULT_UNDEFINED
              else str_join ''/''
                     (map (\<lambda>part. dict_get TRANSFORM_FAMILIES_CTL part part) rest))"
proof -
  have "str_replace (root_directory @ os_sep @ str_join os_sep (first # rest))
          (root_directory @ os_sep) [] = str_join os_sep (first # rest)"
    using str_replace_prefix[of "root_directory @ os_sep" "str_join os_sep (first # rest)" "[]"]
          str_replace_absent[OF _ assms(2), of "[]"]
    by (simp add: os_sep_def)
  moreover have "str_split (str_join os_sep (first # rest)) os_sep = first # rest"
    unfolding os_sep_def using assms(1) by (intro str_split_join) simp_all
  ultimately show ?thesis
    by (simp add: classify_family_genus_def)
qed

theorem family_and_genus_of_directory_witness:
  "classify_family_genus ''/aces'' ''/aces/aces-output/d65/p3'' = Inr (''output'', ''d65/p3'')"
  using family_and_genus_of_directory [of "''aces-output''" "[''d65'', ''p3'']" "''/aces''"]
  by (simp add: os_sep_def dict_get_def TRANSFORM_FAMILIES_CTL_def)

lemma sum_list_update:
  fixes F :: "'v \<Rightarrow> 'b multiset"
  shows "(\<Sum>p\<leftarrow>AList.update k v d. F (snd p)) + (case map_of d k of None \<Rightarrow> {#} | Some x \<Rightarrow> F x)
         = (\<Sum>p\<leftarrow>d. F (snd p)) + F v"
  by (induction d) (auto simp: ac_simps)

lemma genus_paths_concat:
  "image_mset path (mset (concat (map (\<lambda>(basename, ctl_transform). entry_transforms ctl_transform) B)))
     = genus_paths B"
  by (induction B) (auto simp: genus_paths_def entry_paths_def)

lemma family_paths_concat:
  "image_mset path (mset (concat (map (\<lambda>(gen, ctl_transforms).
       concat (map (\<lambda>(basename, ctl_transform). entry_transforms ctl_transform) ctl_transforms)) G)))
     = family_paths G"
  by (induction G) (auto simp: family_paths_def genus_paths_concat)

lemma taxonomy_paths_unclassify:
  "image_mset path (mset (unclassify_ctl_transforms T)) = taxonomy_paths T"
  unfolding unclassify_ctl_transforms_def
  by (induction T) (auto simp: taxonomy_paths_def family_paths_concat)

lemma taxonomy_set_paths:
  "taxonomy_paths (taxonomy_set T f g b e)
     + (case taxonomy_lookup T f g b of None \<Rightarrow> {#} | Some e0 \<Rightarrow> entry_paths e0)
   = taxonomy_paths T + entry_paths e"
proof -
  define G where "G = dict_get T f []"
  define B where "B = dict_get G g []"
  define B' where "B' = AList.update b e B"
  define G' where "G' = AList.update g B' G"
  define old where "old = (case map_of B b of None \<Rightarrow> {#} | Some e0 \<Rightarrow> entry_paths e0)"
  have ts: "taxonomy_set T f g b e = AList.update f G' T"
    by (simp add: taxonomy_set_def Let_def G_def B_def B'_def G'_def)
  have look: "taxonomy_lookup T f g b = map_of B b"
    by (simp add: taxonomy_lookup_def G_def B_def dict_get_def split: option.splits)
  have 1: "genus_paths B' + old = genus_paths B + entry_paths e"
    unfolding genus_paths_def B'_def old_def by (rule sum_list_update)
  have "(case map_of G g of None \<Rightarrow> {#} | Some x \<Rightarrow> genus_paths x) = genus_paths B"
    by (simp add: B_def dict_get_def genus_paths_def split: option.splits)
  then have 2: "family_paths G' + genus_paths B = family_paths G + genus_paths B'"
    unfolding family_paths_def G'_def
    using sum_list_update[of genus_paths g B' G] by simp
  have "(case map_of T f of None \<Rightarrow> {#} | Some x \<Rightarrow> family_paths x) = family_paths G"
    by (simp add: G_def dict_get_def family_paths_def split: option.splits)
  then have 3: "taxonomy_paths (AList.update f G' T) + family_paths G
                = taxonomy_paths T + family_paths G'"
    unfolding taxonomy_paths_def
    using sum_list_update[of family_paths f G' T] by simp
  have "(taxonomy_paths (AList.update f G' T) + old) + (family_paths G + genus_paths B)
        = (taxonomy_paths (AList.update f G' T) + family_paths G) + genus_paths B + old"
    by (simp add: ac_simps)
  also have "\<dots> = taxonomy_paths T + (family_paths G' + genus_paths B) + old"
    using 3 by (simp add: ac_simps)
  also have "\<dots> = taxonomy_paths T + family_paths G + (genus_paths B' + old)"
    using 2 by (simp add: ac_simps)
  also have "\<dots> = (taxonomy_paths T + entry_paths e) + (family_paths G + genus_paths B)"
    using 1 by (simp add: ac_simps)
  finally have "taxonomy_paths (AList.update f G' T) + old = taxonomy_paths T + entry_paths e"
    by simp
  then show ?thesis by (simp add: ts look old_def)
qed

lemma taxonomy_lookup_set:
  "taxonomy_lookup (taxonomy_set T f g b e) f' g' b' =
     (if f' = f \<and> g' = g \<and> b' = b then Some e else taxonomy_lookup T f' g' b')"
  by (auto simp: taxonomy_lookup_def taxonomy_set_def Let_def update_conv' dict_get_def
           split: option.splits)

lemma path_parse_header: "parse_header lines self = Inr t \<Longrightarrow> path t = path self"
  by (induction lines self rule: parse_header.induct)
     (auto split: option.splits sum.splits if_splits)

lemma path_CTLTransform_init:
  "CTLTransform_init e p f g = Inr t \<Longrightarrow> path t = env_abspath e p"
  by (auto simp: CTLTransform_init_def split: sum.splits option.splits dest!: path_parse_header)

lemma classify_entry_paths:
  "classify_entry e f g s = Inr r \<Longrightarrow>
   (case r of None \<Rightarrow> {#} | Some entry \<Rightarrow> entry_paths entry)
     = image_mset (env_abspath e) (mset (slot_values s))"
  by (auto simp: classify_entry_def entry_paths_def slot_values_def
           split: option.splits sum.splits dest!: path_CTLTransform_init)

lemma classify_pairs_lookup:
  "classify_pairs e f g ps T = Inr T' \<Longrightarrow> (f', g') \<noteq> (f, g) \<or> b' \<notin> fst ` set ps \<Longrightarrow>
   taxonomy_lookup T' f' g' b' = taxonomy_lookup T f' g' b'"
proof (induction ps arbitrary: T)
  case Nil
  then show ?case by simp
next
  case (Cons p ps)
  obtain b s where p: "p = (b, s)" by (cases p)
  have other: "(f', g') \<noteq> (f, g) \<or> b' \<notin> fst ` set ps" and here: "(f', g') \<noteq> (f, g) \<or> b' \<noteq> b"
    using Cons.prems(2) p by auto
  show ?case
  proof (cases "classify_entry e f g s")
    case (Inl err)
    then show ?thesis using Cons.prems p by simp
  next
    case (Inr r)
    show ?thesis
    proof (cases r)
      case None
      then have "classify_pairs e f g ps T = Inr T'" using Cons.prems(1) Inr p by simp
      then show ?thesis using other by (rule Cons.IH)
    next
      case (Some entry)
      then have "classify_pairs e f g ps (taxonomy_set T f g b entry) = Inr T'"
        using Cons.prems(1) Inr p by simp
      then have "taxonomy_lookup T' f' g' b' = taxonomy_lookup (taxonomy_set T f g b entry) f' g' b'"
        using other by (rule Cons.IH)
      then show ?thesis using here by (auto simp: taxonomy_lookup_set)
    qed
  qed
qed

lemma classify_pairs_paths:
  "classify_pairs e f g ps T = Inr T' \<Longrightarrow> distinct (map fst ps) \<Longrightarrow>
   \<forall>b \<in> fst ` set ps. taxonomy_lookup T f g b = None \<Longrightarrow>
   taxonomy_paths T' =
     taxonomy_paths T + image_mset (env_abspath e) (\<Sum>r\<leftarrow>ps. mset (slot_values (snd r)))"
proof (induction ps arbitrary: T)
  case Nil
  then show ?case by simp
next
  case (Cons p ps)
  obtain b s where p: "p = (b, s)" by (cases p)
  show ?case
  proof (cases "classify_entry e f g s")
    case (Inl err)
    then show ?thesis using Cons.prems p by simp
  next
    case (Inr r)
    note entry = classify_entry_paths[OF Inr]
    show ?thesis
    proof (cases r)
      case None
      then have "classify_pairs e f g ps T = Inr T'" using Cons.prems Inr p by simp
      moreover have "distinct (map fst ps)" using Cons.prems by simp
      moreover have "\<forall>b \<in> fst ` set ps. taxonomy_lookup T f g b = None" using Cons.prems by simp
      ultimately have "taxonomy_paths T' =
          taxonomy_paths T + image_mset (env_abspath e) (\<Sum>r\<leftarrow>ps. mset (slot_values (snd r)))"
        by (rule Cons.IH)
      moreover have "mset (slot_values s) = {#}" using entry None by simp
      ultimately show ?thesis using p by simp
    next
      case (Some entry')
      let ?T1 = "taxonomy_set T f g b entry'"
      have run: "classify_pairs e f g ps ?T1 = Inr T'" using Cons.prems Inr p Some by simp
      have d: "distinct (map fst ps)" and nb: "b \<notin> fst ` set ps" using Cons.prems p by auto
      have fresh: "\<forall>b' \<in> fst ` set ps. taxonomy_lookup ?T1 f g b' = None"
        using Cons.prems(3) nb by (auto simp: taxonomy_lookup_set)
      have IH: "taxonomy_paths T' =
          taxonomy_paths ?T1 + image_mset (env_abspath e) (\<Sum>r\<leftarrow>ps. mset (slot_values (snd r)))"
        using run d fresh by (rule Cons.IH)
      have "taxonomy_lookup T f g b = None" using Cons.prems(3) p by simp
      then have "taxonomy_paths ?T1 = taxonomy_paths T + entry_paths entry'"
        using taxonomy_set_paths[of T f g b entry'] by simp
      moreover have "entry_paths entry' = image_mset (env_abspath e) (mset (slot_values s))"
        using entry Some by simp
      ultimately show ?thesis using IH p by (simp add: ac_simps)
    qed
  qed
qed

lemma slot_values_find_pairs:
  "distinct (map pair_key xs) \<Longrightarrow>
   (\<Sum>r\<leftarrow>find_ctl_transform_pairs xs. mset (slot_values (snd r))) = mset xs"
proof (induction xs rule: rev_induct)
  case Nil
  then show ?case by (simp add: find_ctl_transform_pairs_def)
next
  case (snoc x xs)
  obtain b fwd where k: "pair_key x = (b, fwd)" by (cases "pair_key x")
  let ?d = "find_ctl_transform_pairs xs"
  let ?F = "\<lambda>s. mset (slot_values s)"
  define slots where
    "slots = dict_get ?d b \<lparr>forward_transform = None, inverse_transform = None\<rparr>"
  define s' where
    "s' = (if fwd then slots\<lparr>forward_transform := Some x\<rparr> else slots\<lparr>inverse_transform := Some x\<rparr>)"
  have step: "find_ctl_transform_pairs (xs @ [x]) = AList.update b s' ?d"
    by (simp add: find_pairs_snoc pairs_step_def k Let_def slots_def s'_def)
  have IH: "(\<Sum>r\<leftarrow>?d. ?F (snd r)) = mset xs" using snoc by simp
  have new: "pair_key x \<notin> pair_key ` set xs" using snoc.prems by simp
  then have "filter (\<lambda>y. pair_key y = (b, fwd)) xs = []"
    using k by (auto simp: filter_empty_conv image_iff)
  then have empty_slot:
      "(if fwd then forward_transform slots else inverse_transform slots) = None"
    by (cases fwd) (auto simp: slots_def dict_get_def map_of_find_pairs last_opt_def)
  have old: "(case map_of ?d b of None \<Rightarrow> {#} | Some s0 \<Rightarrow> ?F s0) = ?F slots"
    by (simp add: slots_def dict_get_def slot_values_def split: option.splits)
  have grow: "?F s' = ?F slots + {#x#}"
    using empty_slot by (cases fwd) (auto simp: s'_def slot_values_def split: option.splits)
  have "(\<Sum>r\<leftarrow>AList.update b s' ?d. ?F (snd r)) + ?F slots = (\<Sum>r\<leftarrow>?d. ?F (snd r)) + ?F s'"
    using sum_list_update[of ?F b s' ?d] old by simp
  then have "(\<Sum>r\<leftarrow>AList.update b s' ?d. ?F (snd r)) + ?F slots = (mset xs + {#x#}) + ?F slots"
    using IH grow by (simp add: ac_simps)
  then have "(\<Sum>r\<leftarrow>AList.update b s' ?d. ?F (snd r)) = mset xs + {#x#}"
    by simp
  then show ?case using step by simp
qed

lemma classify_directories_paths:
  "classify_directories e root d T = Inr T' \<Longrightarrow>
   distinct (concat (map (\<lambda>p. map (\<lambda>r. (classify_family_genus root (fst p), fst r))
                                  (find_ctl_transform_pairs (snd p))) d)) \<Longrightarrow>
   \<forall>p \<in> set d. distinct (map pair_key (snd p)) \<Longrightarrow>
   \<forall>p \<in> set d. \<forall>f g. classify_family_genus root (fst p) = Inr (f, g) \<longrightarrow>
       (\<forall>b \<in> fst ` set (find_ctl_transform_pairs (snd p)). taxonomy_lookup T f g b = None) \<Longrightarrow>
   taxonomy_paths T' = taxonomy_paths T + image_mset (env_abspath e) (mset (concat (map snd d)))"
proof (induction d arbitrary: T)
  case Nil
  then show ?case by simp
next
  case (Cons p d)
  obtain dir files where p: "p = (dir, files)" by (cases p)
  let ?slots = "\<lambda>p. map (\<lambda>r. (classify_family_genus root (fst p), fst r))
                        (find_ctl_transform_pairs (snd p))"
  show ?case
  proof (cases "classify_family_genus root dir")
    case (Inl err)
    then show ?thesis using Cons.prems(1) p by simp
  next
    case (Inr fg)
    obtain f g where fg: "fg = (f, g)" by (cases fg)
    note cfg = Inr[unfolded fg]
    show ?thesis
    proof (cases "classify_pairs e f g (find_ctl_transform_pairs files) T")
      case (Inl err)
      then show ?thesis using Cons.prems(1) p cfg by simp
    next
      case (Inr T1)
      have run: "classify_directories e root d T1 = Inr T'"
        using Cons.prems(1) p cfg Inr by simp
      have "\<forall>b \<in> fst ` set (find_ctl_transform_pairs files). taxonomy_lookup T f g b = None"
        using Cons.prems(4) p cfg by simp
      then have "taxonomy_paths T1 = taxonomy_paths T + image_mset (env_abspath e)
            (\<Sum>r\<leftarrow>find_ctl_transform_pairs files. mset (slot_values (snd r)))"
        using classify_pairs_paths[OF Inr distinct_find_pairs] by blast
      moreover have "distinct (map pair_key files)" using Cons.prems(3) p by simp
      ultimately have T1: "taxonomy_paths T1 =
          taxonomy_paths T + image_mset (env_abspath e) (mset files)"
        by (simp add: slot_values_find_pairs)
      have d2: "distinct (concat (map ?slots d))"
        and apart: "set (?slots p) \<inter> set (concat (map ?slots d)) = {}"
        using Cons.prems(2) by auto
      have d3: "\<forall>p \<in> set d. distinct (map pair_key (snd p))" using Cons.prems(3) by simp
      have d4: "\<forall>q \<in> set d. \<forall>f' g'. classify_family_genus root (fst q) = Inr (f', g') \<longrightarrow>
          (\<forall>b \<in> fst ` set (find_ctl_transform_pairs (snd q)). taxonomy_lookup T1 f' g' b = None)"
      proof (intro ballI allI impI)
        fix q f' g' b
        assume q: "q \<in> set d" and c: "classify_family_genus root (fst q) = Inr (f', g')"
          and b: "b \<in> fst ` set (find_ctl_transform_pairs (snd q))"
        have "(Inr (f', g'), b) \<in> set (?slots q)" using b c by auto
        then have "(Inr (f', g'), b) \<in> set (concat (map ?slots d))" using q by auto
        then have "(Inr (f', g'), b) \<notin> set (?slots p)" using apart by blast
        then have "(f', g') \<noteq> (f, g) \<or> b \<notin> fst ` set (find_ctl_transform_pairs files)"
          using p cfg by auto
        then have "taxonomy_lookup T1 f' g' b = taxonomy_lookup T f' g' b"
          by (rule classify_pairs_lookup[OF Inr])
        moreover have q': "q \<in> set (p # d)" using q by simp
        have "taxonomy_lookup T f' g' b = None"
          by (rule Cons.prems(4)[rule_format, OF q' c b])
        ultimately show "taxonomy_lookup T1 f' g' b = None" by simp
      qed
      have "taxonomy_paths T' =
          taxonomy_paths T1 + image_mset (env_abspath e) (mset (concat (map snd d)))"
        using run d2 d3 d4 by (rule Cons.IH)
      then show ?thesis using T1 p by (simp add: ac_simps)
    qed
  qed
qed

text \<open>
  Whether a record can be built depends on the file alone, not on family and genus; when
  every discovered file can be loaded, the classification returns a taxonomy.
\<close>

lemma isl_parse_header:
  "isl (parse_header lines self) = isl (parse_header lines self')"
proof (induction lines arbitrary: self self')
  case Nil
  then show ?case by simp
next
  case (Cons line lines)
  show ?case
  proof (cases "re_search_tag ''<ACEStransformID>'' ''</ACEStransformID>'' line")
    case (Some group1)
    show ?thesis
    proof (cases "ACESTransformID_init group1")
      case (Inl err)
      then show ?thesis using Some by simp
    next
      case (Inr parsed)
      then show ?thesis using Some
        Cons.IH[of "self\<lparr>ctl_aces_transform_id := parsed\<rparr>" "self'\<lparr>ctl_aces_transform_id := parsed\<rparr>"]
        by simp
    qed
  next
    case None
    note no_id = this
    show ?thesis
    proof (cases "re_search_tag ''<ACESuserName>'' ''</ACESuserName>'' line")
      case (Some group1)
      then show ?thesis using no_id
        Cons.IH[of "self\<lparr>user_name := group1\<rparr>" "self'\<lparr>user_name := group1\<rparr>"]
        by simp
    next
      case None
      show ?thesis
      proof (cases "startswith line ''//''")
        case True
        then show ?thesis using no_id None
          Cons.IH[of "self\<lparr>description := description self
                            @ re_sub_written_by (re_sub_constants (str_strip (drop 2 line)))
                            @ [CHR 0x0A]\<rparr>"
                     "self'\<lparr>description := description self'
                            @ re_sub_written_by (re_sub_constants (str_strip (drop 2 line)))
                            @ [CHR 0x0A]\<rparr>"]
          by simp
      next
        case False
        then show ?thesis using no_id None by simp
      qed
    qed
  qed
qed

lemma isl_CTLTransform_init:
  "isl (CTLTransform_init e p f g) = isl (CTLTransform_init e p f' g')"
proof (cases "env_read e (env_abspath e p)")
  case None
  then show ?thesis by (simp add: CTLTransform_init_def split: sum.splits)
next
  case (Some content)
  show ?thesis
  proof (cases "ACESTransformID_init VALUE_DEFAULT_UNDEFINED")
    case (Inl err)
    then show ?thesis by (simp add: CTLTransform_init_def)
  next
    case (Inr i)
    let ?lines = "filter (\<lambda>line. line \<noteq> []) (map str_strip (str_split content [CHR 0x0A]))"
    have "isl (CTLTransform_init e p f g) =
      isl (parse_header ?lines
             \<lparr>path = env_abspath e p, code = content, ctl_aces_transform_id = i,
              user_name = VALUE_DEFAULT_UNDEFINED, description = VALUE_DEFAULT_UNDEFINED,
              family = f, genus = g, siblings = []\<rparr>)" for f g
      using Some Inr by (simp add: CTLTransform_init_def split: sum.splits)
    then show ?thesis using isl_parse_header by simp
  qed
qed

lemma slot_values_find_pairs_subset:
  assumes "(b, s) \<in> set (find_ctl_transform_pairs xs)"
  shows "set (slot_values s) \<subseteq> set xs"
proof -
  have "map_of (find_ctl_transform_pairs xs) b = Some s"
    using assms distinct_find_pairs by simp
  then have s: "s = \<lparr>forward_transform = last_opt (filter (\<lambda>x. pair_key x = (b, True)) xs),
                     inverse_transform = last_opt (filter (\<lambda>x. pair_key x = (b, False)) xs)\<rparr>"
    by (simp add: map_of_find_pairs split: if_splits)
  have "last_opt (filter P xs) = Some y \<Longrightarrow> y \<in> set xs" for P y
    using last_in_set[of "filter P xs"] by (auto simp: last_opt_def split: if_splits)
  then show ?thesis
    by (auto simp: s slot_values_def split: option.splits)
qed

lemma classify_entry_succeeds:
  "\<forall>p \<in> set (slot_values s). \<not> isl (CTLTransform_init e p f g) \<Longrightarrow>
   \<not> isl (classify_entry e f g s)"
  by (auto simp: classify_entry_def slot_values_def split: option.splits sum.splits)

lemma classify_pairs_succeeds:
  "\<forall>r \<in> set ps. \<forall>p \<in> set (slot_values (snd r)). \<not> isl (CTLTransform_init e p f g) \<Longrightarrow>
   \<not> isl (classify_pairs e f g ps T)"
proof (induction ps arbitrary: T)
  case Nil
  then show ?case by simp
next
  case (Cons r ps)
  obtain b s where r: "r = (b, s)" by (cases r)
  have "\<not> isl (classify_entry e f g s)"
    using Cons.prems r by (intro classify_entry_succeeds) simp
  then obtain entry where "classify_entry e f g s = Inr entry"
    by (cases "classify_entry e f g s") auto
  then show ?case using Cons r by (cases entry) auto
qed

lemma classify_family_genus_succeeds: "\<not> isl (classify_family_genus root directory)"
  using str_split_nonempty
  by (auto simp: classify_family_genus_def Let_def split: list.splits)

lemma classify_directories_succeeds:
  "\<forall>p \<in> set (concat (map snd d)). \<forall>f g. \<not> isl (CTLTransform_init e p f g) \<Longrightarrow>
   \<not> isl (classify_directories e root d T)"
proof (induction d arbitrary: T)
  case Nil
  then show ?case by simp
next
  case (Cons q d)
  obtain dir files where q: "q = (dir, files)" by (cases q)
  obtain f g where fg: "classify_family_genus root dir = Inr (f, g)"
    using classify_family_genus_succeeds[of root dir]
    by (cases "classify_family_genus root dir") auto
  have "\<forall>r \<in> set (find_ctl_transform_pairs files).
          \<forall>p \<in> set (slot_values (snd r)). \<not> isl (CTLTransform_init e p f g)"
  proof (intro ballI)
    fix r p assume r: "r \<in> set (find_ctl_transform_pairs files)" and p: "p \<in> set (slot_values (snd r))"
    have "set (slot_values (snd r)) \<subseteq> set files"
      using slot_values_find_pairs_subset[of "fst r" "snd r" files] r by simp
    then have "p \<in> set (concat (map snd (q # d)))" using p q by auto
    then show "\<not> isl (CTLTransform_init e p f g)" using Cons.prems by blast
  qed
  then have "\<not> isl (classify_pairs e f g (find_ctl_transform_pairs files) T)"
    by (rule classify_pairs_succeeds)
  then obtain T1 where T1: "classify_pairs e f g (find_ctl_transform_pairs files) T = Inr T1"
    by (cases "classify_pairs e f g (find_ctl_transform_pairs files) T") auto
  have "\<not> isl (classify_directories e root d T1)"
    using Cons.prems by (intro Cons.IH) simp
  then show ?case using q fg T1 by simp
qed

lemmas classify_defs =
  classify_aces_ctl_transforms_def vivified_to_dict_def classify_family_genus_def
  classify_entry_def CTLTransform_init_def taxonomy_set_def unclassify_ctl_transforms_def
  paths_common_ancestor_def re_search_tag_def re_sub_constants_def re_sub_written_by_def
  str_strip_def str_lstrip_def str_rstrip_def whitespace_def drop_leading.simps
  os_sep_def TRANSFORM_FAMILIES_CTL_def

text \<open>
  A line that holds nothing but a no-break space is blank after stripping and is skipped, so
  that the tag on the next line is parsed; here the tag has no \<open>:\<close> and the record cannot be
  built.
\<close>

lemma no_break_space_line_is_skipped:
  "CTLTransform_init
     \<lparr>env_read = map_of
        [(''/aces/aces-look/Look.Academy.A.ctl'',
          [CHR 0xC2, CHR 0xA0, CHR 0x0A] @ ''// <ACEStransformID>nocolon</ACEStransformID>'')],
      env_abspath = id,
      env_common_ancestor = paths_common_ancestor\<rparr>
     ''/aces/aces-look/Look.Academy.A.ctl'' VALUE_DEFAULT_UNDEFINED VALUE_DEFAULT_UNDEFINED
   = Inl ValueError"
  by (simp add: classify_defs parse_defs)

text \<open>
  The claim C2 as it is worded fails when two files of a directory have the same basename and
  the same direction: the later file takes the slot of the earlier one.  Three files are
  discovered, two are classified.
\<close>

theorem later_file_replaces_earlier_file:
  "\<not> isl (classify_aces_ctl_transforms
       \<lparr>env_read = map_of
          [(''/aces/aces-core/lib/Lib.Academy.Utilities.ctl'', ''// Utilities''),
           (''/aces/aces-input-and-colorspaces/ACEScc/CSC.Academy.ACEScc.ctl'', ''// ACEScc''),
           (''/aces/aces-input-and-colorspaces/ACEScc/CSC.Academy.ACES_to_ACEScc.ctl'',
            ''// <ACEStransformID>urn:ampas:aces:transformId:v2.0:CSC.Academy.ACES_to_ACEScc.a2.v1</ACEStransformID>'')],
        env_abspath = id,
        env_common_ancestor = paths_common_ancestor\<rparr>
       [(''/aces/aces-core/lib'', [''/aces/aces-core/lib/Lib.Academy.Utilities.ctl'']),
        (''/aces/aces-input-and-colorspaces/ACEScc'',
         [''/aces/aces-input-and-colorspaces/ACEScc/CSC.Academy.ACEScc.ctl'',
          ''/aces/aces-input-and-colorspaces/ACEScc/CSC.Academy.ACES_to_ACEScc.ctl''])])
   \<and> map path (unclassify_ctl_transforms (projr (classify_aces_ctl_transforms
       \<lparr>env_read = map_of
          [(''/aces/aces-core/lib/Lib.Academy.Utilities.ctl'', ''// Utilities''),
           (''/aces/aces-input-and-colorspaces/ACEScc/CSC.Academy.ACEScc.ctl'', ''// ACEScc''),
           (''/aces/aces-input-and-colorspaces/ACEScc/CSC.Academy.ACES_to_ACEScc.ctl'',
            ''// <ACEStransformID>urn:ampas:aces:transformId:v2.0:CSC.Academy.ACES_to_ACEScc.a2.v1</ACEStransformID>'')],
        env_abspath = id,
        env_common_ancestor = paths_common_ancestor\<rparr>
       [(''/aces/aces-core/lib'', [''/aces/aces-core/lib/Lib.Academy.Utilities.ctl'']),
        (''/aces/aces-input-and-colorspaces/ACEScc'',
         [''/aces/aces-input-and-colorspaces/ACEScc/CSC.Academy.ACEScc.ctl'',
          ''/aces/aces-input-and-colorspaces/ACEScc/CSC.Academy.ACES_to_ACEScc.ctl''])])))
     = [''/aces/aces-core/lib/Lib.Academy.Utilities.ctl'',
        ''/aces/aces-input-and-colorspaces/ACEScc/CSC.Academy.ACES_to_ACEScc.ctl'']"
  by (simp add: classify_defs pairs_defs parse_defs)

text \<open>
  The same happens across directories: two directories of the same family and genus share
  the entries of that genus, and an entry of the later directory replaces the entry of the
  same basename of the earlier one.
\<close>

lemma later_directory_replaces_earlier_entry:
  "\<not> isl (classify_aces_ctl_transforms
       \<lparr>env_read = map_of
          [(''/aces/aces-look/Look.Academy.A.ctl'', ''// A''),
           (''/aces/look/InvLook.Academy.A.ctl'', ''// inverse of A'')],
        env_abspath = id,
        env_common_ancestor = paths_common_ancestor\<rparr>
       [(''/aces/aces-look'', [''/aces/aces-look/Look.Academy.A.ctl'']),
        (''/aces/look'', [''/aces/look/InvLook.Academy.A.ctl''])])
   \<and> map path (unclassify_ctl_transforms (projr (classify_aces_ctl_transforms
       \<lparr>env_read = map_of
          [(''/aces/aces-look/Look.Academy.A.ctl'', ''// A''),
           (''/aces/look/InvLook.Academy.A.ctl'', ''// inverse of A'')],
        env_abspath = id,
        env_common_ancestor = paths_common_ancestor\<rparr>
       [(''/aces/aces-look'', [''/aces/aces-look/Look.Academy.A.ctl'']),
        (''/aces/look'', [''/aces/look/InvLook.Academy.A.ctl''])])))
     = [''/aces/look/InvLook.Academy.A.ctl'']"
  by (simp add: classify_defs pairs_defs parse_defs)

text \<open>
  C2, amended: for every discovered mapping of which every file can be loaded (it can be
  read and its identifier tag, if it has one, is well formed), in which no two files of one
  directory have the same basename and direction and no two directories have an entry of
  the same family, genus and basename, the classification returns a taxonomy in which every
  discovered file is in exactly one slot: the paths of the records that
  \<^verbatim>\<open>unclassify_ctl_transforms\<close> returns are the discovered paths (made absolute), each as often
  as it was discovered, and the list is as long as the number of discovered paths, a pair
  giving two records.
\<close>

theorem classified_transforms_are_the_discovered_files:
  assumes "\<forall>p \<in> set (concat (map snd d)).
             \<not> isl (CTLTransform_init e p VALUE_DEFAULT_UNDEFINED VALUE_DEFAULT_UNDEFINED)"
      and "\<forall>(directory, ctl_transforms) \<in> set d. distinct (map pair_key ctl_transforms)"
      and "distinct (concat (map (\<lambda>(directory, ctl_transforms).
              map (\<lambda>(basename, pairs).
                     (classify_family_genus (env_common_ancestor e (concat (map snd d))) directory,
                      basename))
                (find_ctl_transform_pairs ctl_transforms)) d))"
  shows "\<exists>T. classify_aces_ctl_transforms e d = Inr T
           \<and> mset (map path (unclassify_ctl_transforms T))
               = mset (map (env_abspath e) (concat (map snd d)))
           \<and> length (unclassify_ctl_transforms T) = length (concat (map snd d))"
proof -
  let ?root = "env_common_ancestor e (concat (map snd d))"
  have "\<forall>p \<in> set (concat (map snd d)). \<forall>f g. \<not> isl (CTLTransform_init e p f g)"
    using assms(1) isl_CTLTransform_init by blast
  then have "\<not> isl (classify_directories e ?root d [])"
    by (rule classify_directories_succeeds)
  then obtain T where run: "classify_directories e ?root d [] = Inr T"
    by (cases "classify_directories e ?root d []") auto
  then have ok: "classify_aces_ctl_transforms e d = Inr T"
    by (simp add: classify_aces_ctl_transforms_def Let_def vivified_to_dict_def)
  have 2: "distinct (concat (map (\<lambda>p. map (\<lambda>r. (classify_family_genus ?root (fst p), fst r))
                                  (find_ctl_transform_pairs (snd p))) d))"
    using assms(3) by (simp add: split_def)
  have 3: "\<forall>p \<in> set d. distinct (map pair_key (snd p))"
    using assms(2) by (auto simp: case_prod_beta)
  have 4: "\<forall>p \<in> set d. \<forall>f g. classify_family_genus ?root (fst p) = Inr (f, g) \<longrightarrow>
       (\<forall>b \<in> fst ` set (find_ctl_transform_pairs (snd p)). taxonomy_lookup [] f g b = None)"
    by (simp add: taxonomy_lookup_def)
  have "taxonomy_paths T = taxonomy_paths [] + image_mset (env_abspath e) (mset (concat (map snd d)))"
    using run 2 3 4 by (rule classify_directories_paths)
  then have eq: "mset (map path (unclassify_ctl_transforms T))
           = mset (map (env_abspath e) (concat (map snd d)))"
    by (simp add: taxonomy_paths_unclassify taxonomy_paths_def)
  then have "size (mset (map path (unclassify_ctl_transforms T)))
           = size (mset (map (env_abspath e) (concat (map snd d))))"
    by simp
  then have "length (unclassify_ctl_transforms T) = length (concat (map snd d))"
    by (simp del: mset_map)
  then show ?thesis using ok eq by blast
qed

text \<open>
  Two directories of the same family and genus with entries of different basenames: a
  single record in the one, a pair in the other.
\<close>

theorem classified_transforms_are_the_discovered_files_witness:
  "\<exists>T. classify_aces_ctl_transforms
       \<lparr>env_read = map_of
          [(''/aces/aces-look/Look.Academy.A.ctl'',
            ''// <ACEStransformID>urn:ampas:aces:transformId:v2.0:Look.Academy.A.a2.v1</ACEStransformID>''),
           (''/aces/look/Look.Academy.B.ctl'', ''// B''),
           (''/aces/look/InvLook.Academy.B.ctl'', ''// inverse of B'')],
        env_abspath = id,
        env_common_ancestor = paths_common_ancestor\<rparr>
       [(''/aces/aces-look'', [''/aces/aces-look/Look.Academy.A.ctl'']),
        (''/aces/look'',
         [''/aces/look/Look.Academy.B.ctl'', ''/aces/look/InvLook.Academy.B.ctl''])] = Inr T
     \<and> mset (map path (unclassify_ctl_transforms T))
       = mset [''/aces/aces-look/Look.Academy.A.ctl'',
               ''/aces/look/Look.Academy.B.ctl'',
               ''/aces/look/InvLook.Academy.B.ctl'']
     \<and> length (unclassify_ctl_transforms T) = 3"
proof -
  define e where "e =
       \<lparr>env_read = map_of
          [(''/aces/aces-look/Look.Academy.A.ctl'',
            ''// <ACEStransformID>urn:ampas:aces:transformId:v2.0:Look.Academy.A.a2.v1</ACEStransformID>''),
           (''/aces/look/Look.Academy.B.ctl'', ''// B''),
           (''/aces/look/InvLook.Academy.B.ctl'', ''// inverse of B'')],
        env_abspath = id,
        env_common_ancestor = paths_common_ancestor\<rparr>"
  define d where "d =
       [(''/aces/aces-look'', [''/aces/aces-look/Look.Academy.A.ctl'']),
        (''/aces/look'',
         [''/aces/look/Look.Academy.B.ctl'', ''/aces/look/InvLook.Academy.B.ctl''])]"
  have loads: "\<forall>p \<in> set (concat (map snd d)).
             \<not> isl (CTLTransform_init e p VALUE_DEFAULT_UNDEFINED VALUE_DEFAULT_UNDEFINED)"
    unfolding e_def d_def by (simp add: classify_defs parse_defs)
  have within: "\<forall>(directory, ctl_transforms) \<in> set d. distinct (map pair_key ctl_transforms)"
    unfolding d_def by (simp add: pairs_defs)
  have across: "distinct (concat (map (\<lambda>(directory, ctl_transforms).
              map (\<lambda>(basename, pairs).
                     (classify_family_genus (env_common_ancestor e (concat (map snd d))) directory,
                      basename))
                (find_ctl_transform_pairs ctl_transforms)) d))"
    unfolding e_def d_def by (simp add: classify_defs pairs_defs)
  have files: "map (env_abspath e) (concat (map snd d)) =
      [''/aces/aces-look/Look.Academy.A.ctl'',
       ''/aces/look/Look.Academy.B.ctl'',
       ''/aces/look/InvLook.Academy.B.ctl'']"
    unfolding e_def d_def by simp
  have len: "length (concat (map snd d)) = 3"
    unfolding d_def by simp
  obtain T where T: "classify_aces_ctl_transforms e d = Inr T"
      "mset (map path (unclassify_ctl_transforms T)) = mset (map (env_abspath e) (concat (map snd d)))"
      "length (unclassify_ctl_transforms T) = length (concat (map snd d))"
    using classified_transforms_are_the_discovered_files [OF loads within across] by blast
  show ?thesis
    using T(1)[unfolded e_def d_def] T(2)[unfolded files] T(3)[unfolded len]
    by (intro exI[of _ T] conjI)
qed

section \<open>Filtering\<close>

lemma included_two: "included [p1, p2] t \<noteq> 0 \<Longrightarrow> included [p1] t \<noteq> 0"
  by (simp add: included_def split: if_splits)

text \<open>
  C7: for a taxonomy as for a list, every record that the filter returns for the two
  filterers \<open>p1\<close> and \<open>p2\<close> is returned for \<open>p1\<close> alone.
\<close>

theorem filter_monotonic:
  "set (filter_ctl_transforms x (Some [p1, p2])) \<subseteq> set (filter_ctl_transforms x (Some [p1]))"
  using included_two by (auto simp: filter_ctl_transforms_def optional_def)

theorem filter_monotonic_witness:
  "set (filter_ctl_transforms
          (Unclassified
             [\<lparr>path = ''/aces/aces-input-and-colorspaces/arri/CSC.Arri.Alexa-v3-raw-EI800.ctl'',
               code = [], ctl_aces_transform_id = ACESTransformID_fields ''undefined'',
               user_name = ''undefined'', description = ''undefined'', family = ''csc'',
               genus = ''arri'', siblings = []\<rparr>,
              \<lparr>path = ''/aces/aces-core/lib/Lib.Academy.Utilities.ctl'',
               code = [], ctl_aces_transform_id = ACESTransformID_fields ''undefined'',
               user_name = ''undefined'', description = ''undefined'', family = ''lib'',
               genus = ''lib'', siblings = []\<rparr>])
          (Some [exclusion_filterer_ARRIIDT, exclusion_filterer_ARRIIDT]))
   \<subseteq> set (filter_ctl_transforms
          (Unclassified
             [\<lparr>path = ''/aces/aces-input-and-colorspaces/arri/CSC.Arri.Alexa-v3-raw-EI800.ctl'',
               code = [], ctl_aces_transform_id = ACESTransformID_fields ''undefined'',
               user_name = ''undefined'', description = ''undefined'', family = ''csc'',
               genus = ''arri'', siblings = []\<rparr>,
              \<lparr>path = ''/aces/aces-core/lib/Lib.Academy.Utilities.ctl'',
               code = [], ctl_aces_transform_id = ACESTransformID_fields ''undefined'',
               user_name = ''undefined'', description = ''undefined'', family = ''lib'',
               genus = ''lib'', siblings = []\<rparr>])
          (Some [exclusion_filterer_ARRIIDT]))"
  by (rule filter_monotonic)

end
